theory Spec2Isabelle
  imports Complex_Main "HOL-Library.Sublist"
begin

section \<open>Values of the Python run time\<close>

text \<open>
  The notebook \<^verbatim>\<open>Task_3/Task3.ipynb\<close> computes with NumPy's \<^verbatim>\<open>float64\<close>.  A finite
  float is modelled by the real number it stands for; the three special values that
  decide the control flow of the notebook, the two infinities and NaN, are kept apart.
  NumPy never raises on a division by zero: it delivers an infinity or NaN.  Signed zeros
  and the limits of the exponent are not modelled.  Rounding is modelled where its
  result is compared with the thresholds of the trading rule, in \<^verbatim>\<open>np.corrcoef\<close>;
  the figures of the report are computed on the reals.
\<close>

datatype npfloat = Fin real | PosInf | NegInf | NaN

text \<open>The exceptions the notebook can meet.  A \<^verbatim>\<open>KeyError\<close> carries its message.\<close>

datatype keyerr =
    NoTimeColumn string
  | MissingColumns "string list" string

datatype exn = KeyError keyerr | ValueError | IndexError

fun f_lt :: "npfloat \<Rightarrow> npfloat \<Rightarrow> bool" where
  "f_lt NaN _ = False"
| "f_lt _ NaN = False"
| "f_lt (Fin a) (Fin b) = (a < b)"
| "f_lt (Fin _) PosInf = True"
| "f_lt NegInf (Fin _) = True"
| "f_lt NegInf PosInf = True"
| "f_lt _ _ = False"

text \<open>\<^verbatim>\<open>a != b\<close>: NaN differs from everything, itself included.\<close>

fun f_ne :: "npfloat \<Rightarrow> npfloat \<Rightarrow> bool" where
  "f_ne NaN _ = True"
| "f_ne _ NaN = True"
| "f_ne a b = (a \<noteq> b)"

fun f_neg :: "npfloat \<Rightarrow> npfloat" where
  "f_neg (Fin a) = Fin (- a)"
| "f_neg PosInf = NegInf"
| "f_neg NegInf = PosInf"
| "f_neg NaN = NaN"

fun f_add :: "npfloat \<Rightarrow> npfloat \<Rightarrow> npfloat" where
  "f_add NaN _ = NaN"
| "f_add _ NaN = NaN"
| "f_add (Fin a) (Fin b) = Fin (a + b)"
| "f_add PosInf NegInf = NaN"
| "f_add NegInf PosInf = NaN"
| "f_add PosInf _ = PosInf"
| "f_add _ PosInf = PosInf"
| "f_add NegInf _ = NegInf"
| "f_add _ NegInf = NegInf"

definition f_sub :: "npfloat \<Rightarrow> npfloat \<Rightarrow> npfloat" where
  "f_sub a b = f_add a (f_neg b)"

text \<open>An infinity with the sign of a non-zero real.\<close>

definition inf_of_sign :: "real \<Rightarrow> npfloat" where
  "inf_of_sign s = (if 0 < s then PosInf else NegInf)"

fun f_mul :: "npfloat \<Rightarrow> npfloat \<Rightarrow> npfloat" where
  "f_mul NaN _ = NaN"
| "f_mul _ NaN = NaN"
| "f_mul (Fin a) (Fin b) = Fin (a * b)"
| "f_mul (Fin a) PosInf = (if a = 0 then NaN else inf_of_sign a)"
| "f_mul (Fin a) NegInf = (if a = 0 then NaN else inf_of_sign (- a))"
| "f_mul PosInf (Fin b) = (if b = 0 then NaN else inf_of_sign b)"
| "f_mul NegInf (Fin b) = (if b = 0 then NaN else inf_of_sign (- b))"
| "f_mul PosInf PosInf = PosInf"
| "f_mul NegInf NegInf = PosInf"
| "f_mul PosInf NegInf = NegInf"
| "f_mul NegInf PosInf = NegInf"

text \<open>
  Division as NumPy performs it: \<^verbatim>\<open>0/0\<close> is NaN, \<^verbatim>\<open>x/0\<close> an infinity
  (the zero is taken as positive), and nothing is raised.
\<close>

fun f_div :: "npfloat \<Rightarrow> npfloat \<Rightarrow> npfloat" where
  "f_div NaN _ = NaN"
| "f_div _ NaN = NaN"
| "f_div (Fin a) (Fin b) =
     (if b = 0 then (if a = 0 then NaN else inf_of_sign a) else Fin (a / b))"
| "f_div (Fin _) _ = Fin 0"
| "f_div PosInf (Fin b) = (if b < 0 then NegInf else PosInf)"
| "f_div NegInf (Fin b) = (if b < 0 then PosInf else NegInf)"
| "f_div _ _ = NaN"

fun f_sqrt :: "npfloat \<Rightarrow> npfloat" where
  "f_sqrt (Fin a) = (if a < 0 then NaN else Fin (sqrt a))"
| "f_sqrt PosInf = PosInf"
| "f_sqrt _ = NaN"

text \<open>\<^verbatim>\<open>np.clip(c, -1, 1)\<close>: NaN passes through.\<close>

fun f_clip :: "npfloat \<Rightarrow> npfloat" where
  "f_clip (Fin a) = Fin (max (- 1) (min 1 a))"
| "f_clip PosInf = Fin 1"
| "f_clip NegInf = Fin (- 1)"
| "f_clip NaN = NaN"

text \<open>
  Rounding to \<^verbatim>\<open>float64\<close>.  \<open>rne\<close> rounds a real to the nearest integer, a tie to
  the even one; \<open>fl\<close> rounds a real to the nearest number with a significand of 53 bits
  (the exponent is not bounded).  The basic operations and the square root of IEEE 754
  return the rounded exact result.
\<close>

definition rne :: "real \<Rightarrow> int" where
  "rne y = (if y - of_int \<lfloor>y\<rfloor> < 1/2 then \<lfloor>y\<rfloor>
            else if 1/2 < y - of_int \<lfloor>y\<rfloor> then \<lfloor>y\<rfloor> + 1
            else if even \<lfloor>y\<rfloor> then \<lfloor>y\<rfloor> else \<lfloor>y\<rfloor> + 1)"

definition fl :: "real \<Rightarrow> real" where
  "fl x = (if x = 0 then 0
           else of_int (rne (x / 2 powr of_int (\<lfloor>log 2 \<bar>x\<bar>\<rfloor> - 52)))
                  * 2 powr of_int (\<lfloor>log 2 \<bar>x\<bar>\<rfloor> - 52))"

fun f_round :: "npfloat \<Rightarrow> npfloat" where
  "f_round (Fin a) = Fin (fl a)"
| "f_round a = a"

text \<open>
  Python's \<^verbatim>\<open>seq[j]\<close>: an index from \<^verbatim>\<open>-len\<close> to \<^verbatim>\<open>-1\<close> counts from the end,
  anything else outside the sequence raises \<^verbatim>\<open>IndexError\<close>.
\<close>

definition py_getitem :: "'a list \<Rightarrow> int \<Rightarrow> exn + 'a" where
  "py_getitem xs j =
     (if 0 \<le> j \<and> j < int (length xs) then Inr (xs ! nat j)
      else if - int (length xs) \<le> j \<and> j < 0 then Inr (xs ! nat (int (length xs) + j))
      else Inl IndexError)"

text \<open>A list comprehension whose elements may raise: the first exception wins.\<close>

fun collect :: "(exn + 'a) list \<Rightarrow> exn + 'a list" where
  "collect [] = Inr []"
| "collect (r # rs) =
     (case r of
        Inl e \<Rightarrow> Inl e
      | Inr v \<Rightarrow> (case collect rs of Inl e \<Rightarrow> Inl e | Inr vs \<Rightarrow> Inr (v # vs)))"

section \<open>NumPy and pandas operations used by the notebook\<close>

definition mean :: "real list \<Rightarrow> real" where
  "mean xs = sum_list xs / real (length xs)"

definition center :: "real list \<Rightarrow> real list" where
  "center xs = map (\<lambda>x. x - mean xs) xs"

definition dot :: "real list \<Rightarrow> real list \<Rightarrow> real" where
  "dot xs ys = sum_list (map2 (*) xs ys)"

text \<open>
  \<^verbatim>\<open>Series.rank()\<close> with its defaults (ascending, \<^verbatim>\<open>method='average'\<close>): a value gets
  the mean of the positions \<^verbatim>\<open>lt + 1 .. lt + eq\<close> that it and its ties occupy in sorted
  order, where \<^verbatim>\<open>lt\<close> values are smaller and \<^verbatim>\<open>eq\<close> values are equal to it.
\<close>

definition rank :: "real list \<Rightarrow> real list" where
  "rank xs =
     map (\<lambda>x. real (length (filter (\<lambda>y. y < x) xs))
              + (real (length (filter (\<lambda>y. y = x) xs)) + 1) / 2) xs"

text \<open>
  \<^verbatim>\<open>np.cov\<close> of two rows with \<^verbatim>\<open>ddof = 1\<close>: the rows are centred and multiplied,
  and the product is scaled by \<^verbatim>\<open>np.true_divide(1, fact)\<close> with \<^verbatim>\<open>fact = N - 1\<close>,
  set to \<^verbatim>\<open>0.0\<close> when it is not positive.  The rows that \<^verbatim>\<open>next\<close> passes are rank
  sequences: multiples of \<open>1/2\<close> between 1 and \<open>N\<close>, with mean \<open>(N + 1) / 2\<close>.  Their
  sums, deviations and products are multiples of \<open>1/4\<close> below \<open>N\<^sup>3\<close>, hence exact in
  \<^verbatim>\<open>float64\<close> for every window shorter than \<open>2\<^sup>1\<^sup>7\<close> bars, and are computed on the
  reals; the reciprocal and the scaling are rounded.
\<close>

definition np_cov :: "real list \<Rightarrow> real list \<Rightarrow> npfloat" where
  "np_cov xs ys =
     (let fact = (if real (length xs) - 1 \<le> 0 then 0 else real (length xs) - 1)
      in f_round (f_mul (Fin (dot (center xs) (center ys)))
                        (f_round (f_div (Fin 1) (Fin fact)))))"

text \<open>
  \<^verbatim>\<open>np.corrcoef(a, b)[0, 1]\<close>: the covariance divided by the two standard deviations,
  one after the other, each square root and each quotient rounded, then clipped to
  \<^verbatim>\<open>[-1, 1]\<close>.
\<close>

definition np_corrcoef :: "real list \<Rightarrow> real list \<Rightarrow> npfloat" where
  "np_corrcoef xs ys =
     f_clip (f_round (f_div (f_round (f_div (np_cov xs ys) (f_round (f_sqrt (np_cov xs xs)))))
                            (f_round (f_sqrt (np_cov ys ys)))))"

text \<open>
  The value of that quotient before the clip, from the three sums of products of
  deviations \<open>A\<close> (first row with itself), \<open>B\<close> (the two rows) and \<open>C\<close> (second row with
  itself) of rows of length \<open>n\<close>, when no division by zero occurs.
\<close>

definition rounded_corr :: "real \<Rightarrow> real \<Rightarrow> real \<Rightarrow> real \<Rightarrow> real" where
  "rounded_corr A B C n =
     fl (fl (fl (B * fl (1 / (n - 1))) / fl (sqrt (fl (A * fl (1 / (n - 1))))))
           / fl (sqrt (fl (C * fl (1 / (n - 1))))))"

text \<open>
  \<^verbatim>\<open>Series.corr(other)\<close> with its defaults (Pearson, \<^verbatim>\<open>min_periods = 1\<close>) on two
  series without missing values: NaN on empty series, \<^verbatim>\<open>np.corrcoef\<close> otherwise.
\<close>

definition series_corr :: "real list \<Rightarrow> real list \<Rightarrow> npfloat" where
  "series_corr xs ys = (if length xs = 0 then NaN else np_corrcoef xs ys)"

text \<open>
  The specification's side of the signal.  Pearson's correlation coefficient of two
  sequences: the sum of the products of the deviations from the means over the square
  roots of the two sums of squared deviations.
\<close>

definition pearson :: "real list \<Rightarrow> real list \<Rightarrow> real" where
  "pearson xs ys =
     dot (center xs) (center ys)
       / (sqrt (dot (center xs) (center xs)) * sqrt (dot (center ys) (center ys)))"

text \<open>
  The \<open>L\<close> most recent values of a series at bar \<open>i\<close>, the bar itself included, oldest
  first.
\<close>

definition window :: "'a list \<Rightarrow> nat \<Rightarrow> nat \<Rightarrow> 'a list" where
  "window xs i L = take L (drop (i + 1 - L) xs)"

text \<open>
  Section 4.1 of the specification: the negated correlation of the ranks, NaN when either
  rank sequence has no variance.
\<close>

definition spec_signal :: "real list \<Rightarrow> real list \<Rightarrow> npfloat" where
  "spec_signal opens volumes =
     (let ro = rank opens; rv = rank volumes
      in if dot (center ro) (center ro) = 0 \<or> dot (center rv) (center rv) = 0 then NaN
         else Fin (- pearson ro rv))"

text \<open>All values of a window are identical.\<close>

definition all_equal :: "real list \<Rightarrow> bool" where
  "all_equal xs = (\<forall>x\<in>set xs. \<forall>y\<in>set xs. x = y)"

section \<open>\<^verbatim>\<open>Alpha3Strategy\<close>\<close>

record bar =
  "open" :: real
  high :: real
  low :: real
  close :: real
  volume :: real

text \<open>
  The data feed \<^verbatim>\<open>self.data\<close>: backtrader preloads the whole series into the line
  buffers (\<^verbatim>\<open>cerebro.run()\<close> is called with its defaults) and moves \<^verbatim>\<open>idx\<close> from
  bar to bar.  A line read \<^verbatim>\<open>line[ago]\<close> is \<^verbatim>\<open>array[idx + ago]\<close> on the underlying
  Python array.
\<close>

record feed =
  bars :: "bar list"
  idx :: nat

text \<open>A bar whose four prices coincide, for the examples.\<close>

definition flat_bar :: "real \<Rightarrow> real \<Rightarrow> bar" where
  "flat_bar price vol = \<lparr>open = price, high = price, low = price, close = price, volume = vol\<rparr>"

text \<open>A series of ten bars whose price and volume rise from 1 to 10.\<close>

definition rising :: "bar list" where
  "rising = map (\<lambda>k. flat_bar (real k) (real k)) [1..<11]"

definition line_getitem :: "real list \<Rightarrow> nat \<Rightarrow> int \<Rightarrow> exn + real" where
  "line_getitem array i ago = py_getitem array (int i + ago)"

text \<open>
  \<^verbatim>\<open>[line[-i] for i in range(lookback_period)]\<close> (lines 110 and 111): the current bar
  comes first.
\<close>

definition lookback :: "real list \<Rightarrow> nat \<Rightarrow> nat \<Rightarrow> exn + real list" where
  "lookback array i L = collect (map (\<lambda>k. line_getitem array i (- int k)) [0..<L])"

datatype order = Buy | Sell

text \<open>
  Lines 124 to 130 of \<^verbatim>\<open>next\<close>: the orders the bar emits, in the order of the two
  \<^verbatim>\<open>if\<close> statements.  \<^verbatim>\<open>self.position\<close> is the size held; it is true when the size
  is not zero, and neither \<^verbatim>\<open>buy()\<close> nor \<^verbatim>\<open>sell()\<close> changes it before the bar ends.
  The empty list is HOLD.
\<close>

definition signal_orders :: "npfloat \<Rightarrow> int \<Rightarrow> order list" where
  "signal_orders alpha_signal position =
     (if f_lt alpha_signal (Fin (- (1/2))) then (if \<not> position \<noteq> 0 then [Buy] else []) else [])
     @ (if f_lt (Fin (1/2)) alpha_signal then (if position \<noteq> 0 then [Sell] else []) else [])"

text \<open>Lines 110 to 121 of \<^verbatim>\<open>next\<close>: the alpha signal of the current bar.\<close>

definition alpha_signal :: "nat \<Rightarrow> feed \<Rightarrow> exn + npfloat" where
  "alpha_signal lookback_period d =
     (case lookback (map open (bars d)) (idx d) lookback_period of
        Inl e \<Rightarrow> Inl e
      | Inr opens \<Rightarrow>
          (case lookback (map volume (bars d)) (idx d) lookback_period of
             Inl e \<Rightarrow> Inl e
           | Inr volumes \<Rightarrow>
               (let open_rank = rank opens;
                    volume_rank = rank volumes;
                    correlation = series_corr open_rank volume_rank
                in Inr (f_mul (Fin (- 1)) correlation))))"

text \<open>
  \<^verbatim>\<open>Alpha3Strategy.next\<close>: the signal of the bar and the orders it emits at the
  position held.
\<close>

definition strategy_next :: "nat \<Rightarrow> feed \<Rightarrow> int \<Rightarrow> exn + (npfloat \<times> order list)" where
  "strategy_next lookback_period d position =
     (case alpha_signal lookback_period d of
        Inl e \<Rightarrow> Inl e
      | Inr a \<Rightarrow> Inr (a, signal_orders a position))"

text \<open>
  Modelled from the spec: the Execution Simulator's fill.  The broker that fills the
  orders is backtrader's and no part of the notebook.  Sections 4.2 and 4.3: a BUY fill
  takes the position from FLAT to LONG with a single unit, a SELL fill closes it.  The
  position is the number of units held.
\<close>

fun fill :: "order \<Rightarrow> int \<Rightarrow> int" where
  "fill Buy position = position + 1"
| "fill Sell position = position - 1"

text \<open>
  Modelled from the spec: the Simulation Loop of section 4.4 over the bar indices
  \<open>is\<close> of one series.  Each bar runs \<^verbatim>\<open>next\<close> and then fills what it emitted;
  the trace keeps the orders of every bar with the position after the bar.  An exception
  of \<^verbatim>\<open>next\<close> ends the run.
\<close>

fun simulate :: "nat \<Rightarrow> bar list \<Rightarrow> nat list \<Rightarrow> int \<Rightarrow> exn + (order list \<times> int) list" where
  "simulate L bs [] position = Inr []"
| "simulate L bs (i # is) position =
     (case strategy_next L \<lparr>bars = bs, idx = i\<rparr> position of
        Inl e \<Rightarrow> Inl e
      | Inr (a, os) \<Rightarrow>
          (case simulate L bs is (fold fill os position) of
             Inl e \<Rightarrow> Inl e
           | Inr tr \<Rightarrow> Inr ((os, fold fill os position) # tr)))"

text \<open>
  Modelled from the spec: a run walks the series from its first bar to its last and
  starts FLAT (section 3).
\<close>

definition run_strategy :: "nat \<Rightarrow> bar list \<Rightarrow> exn + (order list \<times> int) list" where
  "run_strategy L bs = simulate L bs [0..<length bs] 0"

text \<open>
  An order sequence is well formed from a position (held or not) when every BUY comes
  while nothing is held and every SELL while something is.
\<close>

fun alternating :: "bool \<Rightarrow> order list \<Rightarrow> bool" where
  "alternating held [] = True"
| "alternating held (Buy # os) = (\<not> held \<and> alternating True os)"
| "alternating held (Sell # os) = (held \<and> alternating False os)"

section \<open>\<^verbatim>\<open>generate_performance_report\<close>\<close>

definition initial_value :: real where
  "initial_value = 1000000"

text \<open>
  What the report reads from \<^verbatim>\<open>cerebro\<close>: the broker's value after the run and the
  P&L list of the first strategy.  \<^verbatim>\<open>starting_cash\<close> is the cash configured with
  \<^verbatim>\<open>broker.set_cash\<close>.
\<close>

record cerebro =
  starting_cash :: real
  broker_value :: real
  trade_pnls :: "real list"

record report =
  portfolio_value :: real
  returns :: real
  sharpe_ratio :: npfloat
  sortino_ratio :: npfloat
  max_drawdown_pct :: npfloat
  trade_count :: nat
  hit_ratio_pct :: real

text \<open>\<^verbatim>\<open>np.mean\<close>: the sum over the count, NaN (\<^verbatim>\<open>0/0\<close>) on an empty array.\<close>

definition np_mean :: "real list \<Rightarrow> npfloat" where
  "np_mean xs = f_div (Fin (sum_list xs)) (Fin (real (length xs)))"

text \<open>\<^verbatim>\<open>np.std\<close>: the population standard deviation, NaN on an empty array.\<close>

definition np_std :: "real list \<Rightarrow> npfloat" where
  "np_std xs =
     (case np_mean xs of
        Fin m \<Rightarrow> f_sqrt (np_mean (map (\<lambda>x. (x - m)\<^sup>2) xs))
      | _ \<Rightarrow> NaN)"

text \<open>
  \<^verbatim>\<open>np.mean(s) / np.std(s) if np.std(s) != 0 else 0\<close>, the expression of lines 219
  and 220.
\<close>

definition mean_over_std :: "real list \<Rightarrow> npfloat" where
  "mean_over_std s = (if f_ne (np_std s) (Fin 0) then f_div (np_mean s) (np_std s) else Fin 0)"

text \<open>
  The builtins \<^verbatim>\<open>min\<close> and \<^verbatim>\<open>max\<close> on a sequence raise \<^verbatim>\<open>ValueError\<close> when it
  is empty.  \<^verbatim>\<open>max(a, b)\<close> keeps \<^verbatim>\<open>a\<close> unless \<^verbatim>\<open>b > a\<close>.
\<close>

fun py_min :: "real list \<Rightarrow> exn + real" where
  "py_min [] = Inl ValueError"
| "py_min (x # xs) = Inr (fold min xs x)"

fun py_max :: "real list \<Rightarrow> exn + real" where
  "py_max [] = Inl ValueError"
| "py_max (x # xs) = Inr (fold max xs x)"

definition py_max2 :: "npfloat \<Rightarrow> npfloat \<Rightarrow> npfloat" where
  "py_max2 a b = (if f_lt a b then b else a)"

definition daily_returns :: "cerebro \<Rightarrow> real list" where
  "daily_returns c = map (\<lambda>pnl. pnl / initial_value) (trade_pnls c)"

definition generate_performance_report :: "cerebro \<Rightarrow> exn + report" where
  "generate_performance_report c =
     (let value = broker_value c;
          total_returns = (value - initial_value) / initial_value * 100;
          sharpe = mean_over_std (daily_returns c);
          sortino = mean_over_std (filter (\<lambda>r. r > 0) (daily_returns c))
      in case py_min (daily_returns c) of
           Inl e \<Rightarrow> Inl e
         | Inr lowest \<Rightarrow>
             (case py_max (daily_returns c) of
                Inl e \<Rightarrow> Inl e
              | Inr highest \<Rightarrow>
                  (let max_drawdown =
                         py_max2 (f_sub (Fin 1) (f_div (Fin lowest) (Fin highest))) (Fin 0);
                       count = length (trade_pnls c);
                       winning_trades = length (filter (\<lambda>pnl. pnl > 0) (trade_pnls c));
                       hit_ratio = (if count > 0 then real winning_trades / real count else 0)
                   in Inr \<lparr>portfolio_value = value,
                           returns = total_returns,
                           sharpe_ratio = sharpe,
                           sortino_ratio = sortino,
                           max_drawdown_pct = f_mul max_drawdown (Fin 100),
                           trade_count = count,
                           hit_ratio_pct = hit_ratio * 100\<rparr>)))"

text \<open>The population standard deviation of a sample, as a real number.\<close>

definition pstd :: "real list \<Rightarrow> real" where
  "pstd s = sqrt (mean (map (\<lambda>x. (x - mean s)\<^sup>2) s))"

section \<open>Loading the data\<close>

text \<open>
  The frame \<^verbatim>\<open>pd.read_csv\<close> returns for a file, as far as \<^verbatim>\<open>load_stock_data\<close>
  looks at it: the column names, the name of the index, and whether \<^verbatim>\<open>pd.to_datetime\<close>
  accepts the values of the time column (it raises \<^verbatim>\<open>ValueError\<close> on text that is
  no date).
\<close>

record dataframe =
  columns :: "string list"
  index_name :: "string option"
  time_parses :: bool

definition required_columns :: "string list" where
  "required_columns = [''open'', ''high'', ''low'', ''close'', ''volume'']"

text \<open>Lines 56 to 63: the index is set, the required columns are checked.\<close>

definition index_and_check :: "string \<Rightarrow> dataframe \<Rightarrow> exn + dataframe" where
  "index_and_check file_path df =
     (let df' = df\<lparr>columns := filter (\<lambda>col. col \<noteq> ''timestamp'') (columns df),
                    index_name := Some ''timestamp''\<rparr>;
          missing_columns = filter (\<lambda>col. col \<notin> set (columns df')) required_columns
      in if missing_columns \<noteq> [] then Inl (KeyError (MissingColumns missing_columns file_path))
         else Inr df')"

text \<open>
  \<^verbatim>\<open>load_stock_data\<close>, on the frame read from \<^verbatim>\<open>file_path\<close>.  Both branches of
  line 47 convert the column with \<^verbatim>\<open>pd.to_datetime\<close>.
\<close>

definition load_stock_data :: "string \<Rightarrow> dataframe \<Rightarrow> exn + dataframe" where
  "load_stock_data file_path df =
     (if ''timestamp'' \<in> set (columns df) then
        (if time_parses df then index_and_check file_path df else Inl ValueError)
      else if ''date'' \<in> set (columns df) then
        (if time_parses df
         then index_and_check file_path (df\<lparr>columns := columns df @ [''timestamp'']\<rparr>)
         else Inl ValueError)
      else Inl (KeyError (NoTimeColumn file_path)))"

text \<open>A file that \<^verbatim>\<open>os.walk\<close> finds, with the frame \<^verbatim>\<open>pd.read_csv\<close> makes of it.\<close>

record csv_file =
  subdir :: string
  file_name :: string
  content :: dataframe

definition path_of :: "csv_file \<Rightarrow> string" where
  "path_of f = subdir f @ ''/'' @ file_name f"

datatype event = Loading string | Skipping string keyerr

text \<open>
  The loop of lines 159 to 172 of \<^verbatim>\<open>run_alpha3_backtest_portfolio\<close> over the files
  in walking order: the feeds added to \<^verbatim>\<open>cerebro\<close> and what is printed.  Only a
  \<^verbatim>\<open>KeyError\<close> is caught; any other exception leaves the function.
\<close>

fun load_feeds :: "csv_file list \<Rightarrow> exn + (dataframe list \<times> event list)" where
  "load_feeds [] = Inr ([], [])"
| "load_feeds (f # fs) =
     (if suffix ''1h.csv'' (file_name f) then
        (case load_stock_data (path_of f) (content f) of
           Inl (KeyError e) \<Rightarrow>
             (case load_feeds fs of
                Inl x \<Rightarrow> Inl x
              | Inr (feeds, printed) \<Rightarrow>
                  Inr (feeds, Loading (path_of f) # Skipping (path_of f) e # printed))
         | Inl x \<Rightarrow> Inl x
         | Inr df \<Rightarrow>
             (case load_feeds fs of
                Inl x \<Rightarrow> Inl x
              | Inr (feeds, printed) \<Rightarrow> Inr (df # feeds, Loading (path_of f) # printed)))
      else load_feeds fs)"

text \<open>
  What the specification of the Bar Data Provider asks of a source, and what a run that
  skips the failing sources and goes on is to deliver: the frames of the files that load,
  in walking order, and a report of every file it tried.
\<close>

definition has_time_column :: "dataframe \<Rightarrow> bool" where
  "has_time_column df \<longleftrightarrow> ''timestamp'' \<in> set (columns df) \<or> ''date'' \<in> set (columns df)"

definition has_required_columns :: "dataframe \<Rightarrow> bool" where
  "has_required_columns df \<longleftrightarrow> (\<forall>col\<in>set required_columns. col \<in> set (columns df))"

definition wanted :: "csv_file \<Rightarrow> bool" where
  "wanted f \<longleftrightarrow> suffix ''1h.csv'' (file_name f)"

definition loaded_of :: "csv_file list \<Rightarrow> dataframe list" where
  "loaded_of fs =
     concat (map (\<lambda>f. case load_stock_data (path_of f) (content f) of
                          Inr df \<Rightarrow> [df] | Inl _ \<Rightarrow> [])
                 (filter wanted fs))"

definition printed_of :: "csv_file list \<Rightarrow> event list" where
  "printed_of fs =
     concat (map (\<lambda>f. Loading (path_of f) #
                        (case load_stock_data (path_of f) (content f) of
                           Inl (KeyError k) \<Rightarrow> [Skipping (path_of f) k] | _ \<Rightarrow> []))
                 (filter wanted fs))"

section \<open>Properties of the trading rule\<close>

lemma f_lt_Fin_iff: "f_lt a (Fin t) \<longleftrightarrow> (a = NegInf \<or> (\<exists>r. a = Fin r \<and> r < t))"
  by (cases a) auto

lemma f_gt_Fin_iff: "f_lt (Fin t) a \<longleftrightarrow> (a = PosInf \<or> (\<exists>r. a = Fin r \<and> t < r))"
  by (cases a) auto

lemma signal_orders_cases:
  "signal_orders a p =
     (if f_lt a (Fin (- (1/2))) \<and> p = 0 then [Buy]
      else if f_lt (Fin (1/2)) a \<and> p \<noteq> 0 then [Sell] else [])"
  by (cases a) (auto simp: signal_orders_def)

text \<open>
  Claim C2.  On every bar, whatever the signal \<open>a\<close> and the position \<open>p\<close>: the bar
  emits BUY exactly when the signal is strictly below \<open>-0.5\<close> and nothing is held, SELL
  exactly when the signal is strictly above \<open>0.5\<close> and something is held, and in every
  other case it emits nothing, so that the position stays as it is whatever filling an
  order does to it; the last holds in particular for a NaN signal and for every signal
  strictly between the thresholds.
\<close>

theorem trading_rule:
  "(signal_orders a p = [Buy] \<longleftrightarrow> f_lt a (Fin (- (1/2))) \<and> p = 0)
   \<and> (signal_orders a p = [Sell] \<longleftrightarrow> f_lt (Fin (1/2)) a \<and> p \<noteq> 0)
   \<and> (\<not> (f_lt a (Fin (- (1/2))) \<and> p = 0) \<and> \<not> (f_lt (Fin (1/2)) a \<and> p \<noteq> 0)
        \<longrightarrow> signal_orders a p = [] \<and> fold f (signal_orders a p) p = p)
   \<and> signal_orders NaN p = []
   \<and> (- (1/2) < r \<and> r < 1/2 \<longrightarrow> signal_orders (Fin r) p = [])
   \<and> (strategy_next L d p = Inr (a, os) \<longrightarrow> os = signal_orders a p)"
  by (cases a) (auto simp: signal_orders_def strategy_next_def split: sum.splits)

theorem trading_rule_witness:
  "signal_orders (Fin (- 1)) 0 = [Buy]
   \<and> signal_orders (Fin 1) 1 = [Sell]
   \<and> signal_orders (Fin 1) 0 = [] \<and> fold fill (signal_orders (Fin 1) 0) 0 = 0
   \<and> signal_orders (Fin (1/4)) 1 = []"
  using trading_rule [of "Fin (- 1)" 0 fill "1/4"] trading_rule [of "Fin 1" 1 fill "1/4"]
    trading_rule [of "Fin 1" 0 fill "1/4"]
  by simp

section \<open>Properties of the performance report\<close>

lemma py_min_Min: "xs \<noteq> [] \<Longrightarrow> py_min xs = Inr (Min (set xs))"
proof (cases xs)
  case (Cons a as)
  then show ?thesis using Min.set_eq_fold [of a as] by simp
qed simp

lemma py_max_Max: "xs \<noteq> [] \<Longrightarrow> py_max xs = Inr (Max (set xs))"
proof (cases xs)
  case (Cons a as)
  then show ?thesis using Max.set_eq_fold [of a as] by simp
qed simp

lemma report_defined:
  "trade_pnls c \<noteq> [] \<Longrightarrow> \<exists>r. generate_performance_report c = Inr r"
  by (simp add: generate_performance_report_def py_min_Min py_max_Max daily_returns_def Let_def)

lemma report_raises_iff:
  "generate_performance_report c = Inl e \<longleftrightarrow> trade_pnls c = [] \<and> e = ValueError"
  by (cases "trade_pnls c")
     (auto simp add: generate_performance_report_def daily_returns_def Let_def)

text \<open>
  Claim C3 fails on the code.  With no closed trade the sample is empty: NumPy's mean and
  standard deviation of it are NaN, NaN differs from 0, so the Sharpe and the Sortino
  ratio are both NaN instead of 0; and the builtin \<^verbatim>\<open>min\<close> of line 225 raises
  \<^verbatim>\<open>ValueError\<close> on the empty sample, so no report is produced.
\<close>

theorem report_without_trades:
  "generate_performance_report
     \<lparr>starting_cash = 1000000, broker_value = 1000000, trade_pnls = []\<rparr> = Inl ValueError
   \<and> mean_over_std
       (daily_returns \<lparr>starting_cash = 1000000, broker_value = 1000000, trade_pnls = []\<rparr>) = NaN
   \<and> mean_over_std (filter (\<lambda>r. r > 0)
       (daily_returns \<lparr>starting_cash = 1000000, broker_value = 1000000, trade_pnls = []\<rparr>)) = NaN"
  by (simp add: generate_performance_report_def daily_returns_def mean_over_std_def
        np_std_def np_mean_def)

text \<open>
  What holds of claim C7: on a non-empty sample the expression of lines 219 and 220 is the
  mean over the population standard deviation, and 0 when the deviation is 0.
\<close>

lemma np_mean_nonempty: "s \<noteq> [] \<Longrightarrow> np_mean s = Fin (mean s)"
  by (simp add: np_mean_def mean_def)

lemma mean_squares_nonneg: "0 \<le> mean (map (\<lambda>x. (x - m)\<^sup>2) s)"
  by (auto simp: mean_def intro!: divide_nonneg_nonneg sum_list_nonneg)

lemma np_std_nonempty: "s \<noteq> [] \<Longrightarrow> np_std s = Fin (pstd s)"
  using mean_squares_nonneg [of "mean s" s]
  by (simp add: np_std_def np_mean_nonempty pstd_def)

lemma mean_over_std_nonempty:
  "s \<noteq> [] \<Longrightarrow> mean_over_std s = (if pstd s = 0 then Fin 0 else Fin (mean s / pstd s))"
  by (simp add: mean_over_std_def np_std_nonempty np_mean_nonempty)

lemma mean_over_std_empty: "mean_over_std [] = NaN"
  by (simp add: mean_over_std_def np_std_def np_mean_def)

text \<open>
  Claim C7 fails on the code where the sample, or its strictly positive part, is empty:
  the guard \<^verbatim>\<open>np.std(...) != 0\<close> does not catch the NaN that \<^verbatim>\<open>np.std\<close> returns for
  an empty array, and the ratio is NaN instead of 0.  A run with one losing trade reports
  a Sortino ratio of NaN.
\<close>

theorem ratios_of_losing_trade:
  "generate_performance_report
     \<lparr>starting_cash = 1000000, broker_value = 999995, trade_pnls = [- 5]\<rparr>
   = Inr \<lparr>portfolio_value = 999995, returns = - (1 / 2000), sharpe_ratio = Fin 0,
          sortino_ratio = NaN, max_drawdown_pct = Fin 0, trade_count = 1, hit_ratio_pct = 0\<rparr>"
  by (simp add: generate_performance_report_def daily_returns_def mean_over_std_def
        np_std_def np_mean_def initial_value_def py_max2_def f_sub_def)




text \<open>
  Claim C10.  The report takes the constant 1,000,000 as initial value, for the total
  return and for the per-trade sample alike; the cash configured on the broker does not
  enter: two runs that agree on the final value and on the list of P&L values have the
  same report (or fail alike), whatever their starting cash.
\<close>

theorem report_uses_fixed_initial_value:
  "initial_value = 1000000
   \<and> daily_returns c = map (\<lambda>pnl. pnl / 1000000) (trade_pnls c)
   \<and> (generate_performance_report c = Inr r \<longrightarrow>
        returns r = (broker_value c - 1000000) / 1000000 * 100)
   \<and> (broker_value c = broker_value c' \<and> trade_pnls c = trade_pnls c' \<longrightarrow>
        generate_performance_report c = generate_performance_report c')"
proof (intro conjI impI)
  show "initial_value = 1000000" by (simp add: initial_value_def)
  show "daily_returns c = map (\<lambda>pnl. pnl / 1000000) (trade_pnls c)"
    by (simp add: daily_returns_def initial_value_def)
next
  assume "generate_performance_report c = Inr r"
  then show "returns r = (broker_value c - 1000000) / 1000000 * 100"
    by (auto simp add: generate_performance_report_def initial_value_def Let_def
        split: sum.splits)
next
  assume a: "broker_value c = broker_value c' \<and> trade_pnls c = trade_pnls c'"
  then have dr: "daily_returns c = daily_returns c'" by (simp add: daily_returns_def)
  from a have v: "broker_value c = broker_value c'" and t: "trade_pnls c = trade_pnls c'"
    by simp_all
  show "generate_performance_report c = generate_performance_report c'"
    unfolding generate_performance_report_def dr v t by (rule refl)
qed

theorem report_uses_fixed_initial_value_witness:
  "starting_cash \<lparr>starting_cash = 1000000, broker_value = 1000100, trade_pnls = [100]\<rparr>
     \<noteq> starting_cash \<lparr>starting_cash = 500, broker_value = 1000100, trade_pnls = [100]\<rparr>
   \<and> generate_performance_report \<lparr>starting_cash = 1000000, broker_value = 1000100, trade_pnls = [100]\<rparr>
     = generate_performance_report \<lparr>starting_cash = 500, broker_value = 1000100, trade_pnls = [100]\<rparr>
   \<and> (\<exists>r. generate_performance_report \<lparr>starting_cash = 500, broker_value = 1000100, trade_pnls = [100]\<rparr> = Inr r
        \<and> returns r = 1 / 100)"
  using report_uses_fixed_initial_value
    [of "\<lparr>starting_cash = 1000000, broker_value = 1000100, trade_pnls = [100]\<rparr>" _
        "\<lparr>starting_cash = 500, broker_value = 1000100, trade_pnls = [100]\<rparr>"]
    report_uses_fixed_initial_value
    [of "\<lparr>starting_cash = 500, broker_value = 1000100, trade_pnls = [100]\<rparr>"]
    report_defined [of "\<lparr>starting_cash = 500, broker_value = 1000100, trade_pnls = [100]\<rparr>"]
  by auto

section \<open>Rounding\<close>

lemma rne_bound: "\<bar>of_int (rne y) - y\<bar> \<le> 1/2"
  unfolding rne_def by (auto simp: abs_le_iff)

lemma rne_unique:
  assumes "\<bar>y - of_int m\<bar> < 1/2"
  shows "rne y = m"
proof -
  have "\<bar>of_int (rne y) - of_int m :: real\<bar> < 1"
    using rne_bound [of y] assms by linarith
  then have "\<bar>rne y - m\<bar> < 1"
    by (metis of_int_diff of_int_abs of_int_less_1_iff)
  then show ?thesis by linarith
qed

lemma fl_zero [simp]: "fl 0 = 0"
  by (simp add: fl_def)

lemma scale_bounds:
  assumes "x \<noteq> 0"
  shows "2 ^ 52 * 2 powr of_int (\<lfloor>log 2 \<bar>x\<bar>\<rfloor> - 52) \<le> \<bar>x\<bar>"
    and "\<bar>x\<bar> < 2 ^ 53 * 2 powr of_int (\<lfloor>log 2 \<bar>x\<bar>\<rfloor> - 52)"
proof -
  let ?k = "\<lfloor>log 2 \<bar>x\<bar>\<rfloor>"
  have "2 powr of_int ?k \<le> \<bar>x\<bar> \<and> \<bar>x\<bar> < 2 powr (of_int ?k + 1)"
    using floor_log_eq_powr_iff [of "\<bar>x\<bar>" 2 ?k] assms by simp
  moreover have "(2::real) powr of_int ?k = 2 ^ 52 * 2 powr of_int (?k - 52)"
    by (simp add: powr_diff)
  moreover have "(2::real) powr (of_int ?k + 1) = 2 ^ 53 * 2 powr of_int (?k - 52)"
    by (simp add: powr_diff powr_add)
  ultimately show "2 ^ 52 * 2 powr of_int (?k - 52) \<le> \<bar>x\<bar>"
    and "\<bar>x\<bar> < 2 ^ 53 * 2 powr of_int (?k - 52)" by simp_all
qed

lemma fl_rel: "\<bar>fl x - x\<bar> \<le> \<bar>x\<bar> / 2 ^ 53"
proof (cases "x = 0")
  case True
  then show ?thesis by simp
next
  case False
  define s :: real where "s = 2 powr of_int (\<lfloor>log 2 \<bar>x\<bar>\<rfloor> - 52)"
  define q where "q = x / s"
  define a :: real where "a = of_int (rne q)"
  have s: "0 < s" by (simp add: s_def)
  have flx: "fl x = a * s"
    using False by (simp add: fl_def a_def q_def s_def)
  have "a * s - x = (a - q) * s"
    using s by (simp add: q_def left_diff_distrib)
  then have "\<bar>fl x - x\<bar> = \<bar>a - q\<bar> * s"
    using s by (simp add: flx abs_mult)
  also have "\<dots> \<le> 1/2 * s"
    using rne_bound [of q] s unfolding a_def by (intro mult_right_mono) simp_all
  also have "\<dots> \<le> \<bar>x\<bar> / 2 ^ 53"
    using scale_bounds(1) [OF False] unfolding s_def [symmetric] by simp
  finally show ?thesis .
qed

lemma fl_eqI:
  fixes j :: nat
  assumes lo: "2 ^ 52 \<le> \<bar>x\<bar> * 2 ^ j" and hi: "\<bar>x\<bar> * 2 ^ j < 2 ^ 53"
    and m: "\<bar>x * 2 ^ j - of_int m\<bar> < 1/2"
  shows "fl x = of_int m / 2 ^ j"
proof -
  have nz: "x \<noteq> 0" using lo by auto
  have "(2::real) powr of_int (52 - int j) \<le> \<bar>x\<bar> \<and> \<bar>x\<bar> < 2 powr (of_int (52 - int j) + 1)"
  proof
    have e1: "(2::real) powr of_int (52 - int j) = 2 ^ 52 / 2 ^ j"
      by (simp add: powr_diff powr_realpow)
    show "2 powr of_int (52 - int j) \<le> \<bar>x\<bar>"
      unfolding e1 using lo by (simp add: pos_divide_le_eq)
    have e2: "(2::real) powr (of_int (52 - int j) + 1) = 2 ^ 53 / 2 ^ j"
      by (simp add: powr_diff powr_add powr_realpow)
    show "\<bar>x\<bar> < 2 powr (of_int (52 - int j) + 1)"
      unfolding e2 using hi by (simp add: pos_less_divide_eq)
  qed
  then have k: "\<lfloor>log 2 \<bar>x\<bar>\<rfloor> = 52 - int j"
    using floor_log_eq_powr_iff [of "\<bar>x\<bar>" 2 "52 - int j"] nz by simp
  have s: "(2::real) powr of_int (\<lfloor>log 2 \<bar>x\<bar>\<rfloor> - 52) = 1 / 2 ^ j"
    by (simp add: k powr_minus powr_realpow inverse_eq_divide)
  have "rne (x / (1 / 2 ^ j)) = m"
    by (rule rne_unique) (use m in simp)
  then show ?thesis unfolding fl_def s using nz by simp
qed

lemma fl_pos: "0 < x \<Longrightarrow> 0 < fl x"
proof -
  assume x: "0 < x"
  have "\<bar>fl x - x\<bar> \<le> x / 2 ^ 53" using fl_rel [of x] x by simp
  moreover have "x / 2 ^ 53 < x" using x by simp
  ultimately show ?thesis by linarith
qed

lemma fl_sqrt_eqI:
  fixes j :: nat and m :: int
  assumes m: "2 ^ 52 < m" "m < 2 ^ 53"
    and lo: "((of_int m - 1/2) / 2 ^ j)\<^sup>2 < v"
    and hi: "v < ((of_int m + 1/2) / 2 ^ j)\<^sup>2"
  shows "fl (sqrt v) = of_int m / 2 ^ j"
proof -
  have "2 ^ 52 + 1 \<le> m" "m \<le> 2 ^ 53 - 1" using m by simp_all
  then have "real_of_int (2 ^ 52 + 1) \<le> of_int m" "real_of_int m \<le> of_int (2 ^ 53 - 1)"
    by (simp_all only: of_int_le_iff)
  then have m': "(4503599627370497::real) \<le> of_int m" "(of_int m :: real) \<le> 9007199254740991"
    by simp_all
  have "(of_int m - 1/2) / 2 ^ j < sqrt v"
    using lo by (rule real_less_rsqrt)
  then have a: "of_int m - 1/2 < sqrt v * 2 ^ j"
    by (simp add: pos_divide_less_eq)
  have "0 \<le> (of_int m + 1/2) / (2::real) ^ j" using m' by simp
  then have "sqrt v < (of_int m + 1/2) / 2 ^ j"
    using hi by (rule real_less_lsqrt)
  then have b: "sqrt v * 2 ^ j < of_int m + 1/2"
    by (simp add: pos_less_divide_eq)
  have pos: "0 < sqrt v * 2 ^ j" using a m' by linarith
  then have abs: "\<bar>sqrt v\<bar> * 2 ^ j = sqrt v * 2 ^ j"
    by (simp add: zero_less_mult_iff)
  show ?thesis
  proof (rule fl_eqI)
    have "4503599627370496 \<le> sqrt v * 2 ^ j" using a m' by linarith
    then show "2 ^ 52 \<le> \<bar>sqrt v\<bar> * 2 ^ j" unfolding abs by simp
    have "sqrt v * 2 ^ j < 9007199254740992" using b m' by linarith
    then show "\<bar>sqrt v\<bar> * 2 ^ j < 2 ^ 53" unfolding abs by simp
    show "\<bar>sqrt v * 2 ^ j - of_int m\<bar> < 1/2" using a b by linarith
  qed
qed


lemma fl_ratio:
  obtains \<rho> where "fl y = y * \<rho>" and "1 - 1 / 2 ^ 53 \<le> \<rho>" and "\<rho> \<le> 1 + 1 / 2 ^ 53"
proof (cases "y = 0")
  case True
  show ?thesis by (rule that [of 1]) (simp_all add: True)
next
  case False
  have "\<bar>fl y / y - 1\<bar> = \<bar>fl y - y\<bar> / \<bar>y\<bar>"
    using False by (simp add: abs_divide [symmetric] diff_divide_distrib del: abs_divide)
  also have "\<dots> \<le> (\<bar>y\<bar> / 2 ^ 53) / \<bar>y\<bar>"
    using fl_rel [of y] False by (intro divide_right_mono) simp_all
  also have "\<dots> = 1 / 2 ^ 53" using False by simp
  finally have "\<bar>fl y / y - 1\<bar> \<le> 1 / 2 ^ 53" .
  then have b: "1 - 1 / 2 ^ 53 \<le> fl y / y" "fl y / y \<le> 1 + 1 / 2 ^ 53"
    unfolding abs_le_iff by linarith+
  have e: "fl y = y * (fl y / y)" using False by simp
  show ?thesis using e b by (rule that)
qed

lemma unit_roundoff_numbers:
  "(1 + 1 / 2 ^ 53) ^ 3 \<le> (1 + 1 / 2 ^ 50) * (1 - 1 / 2 ^ 53 :: real) ^ 4"
  "(1 - 1 / 2 ^ 50) * (1 + 1 / 2 ^ 53) ^ 4 \<le> (1 - 1 / 2 ^ 53 :: real) ^ 3"
  by (simp_all add: power3_eq_cube power4_eq_xxxx)

lemma sqrt_near_one:
  assumes "1 - 1 / 2 ^ 53 \<le> \<rho>" and "\<rho> \<le> 1 + 1 / 2 ^ 53"
  shows "1 - 1 / 2 ^ 53 \<le> sqrt \<rho>" and "sqrt \<rho> \<le> 1 + 1 / 2 ^ 53"
proof -
  have "(1 - 1 / 2 ^ 53)\<^sup>2 \<le> (1 - 1 / 2 ^ 53 :: real)" by (simp add: power2_eq_square)
  then have "(1 - 1 / 2 ^ 53)\<^sup>2 \<le> \<rho>" using assms(1) by linarith
  then show "1 - 1 / 2 ^ 53 \<le> sqrt \<rho>" by (rule real_le_rsqrt)
  have "(1 + 1 / 2 ^ 53 :: real) \<le> (1 + 1 / 2 ^ 53)\<^sup>2" by (simp add: power2_eq_square)
  then have "\<rho> \<le> (1 + 1 / 2 ^ 53)\<^sup>2" using assms(2) by linarith
  then show "sqrt \<rho> \<le> 1 + 1 / 2 ^ 53" by (intro real_le_lsqrt) simp_all
qed

lemma prod3_bounds:
  fixes a b c l h :: real
  assumes "0 < l" "l \<le> a" "a \<le> h" "l \<le> b" "b \<le> h" "l \<le> c" "c \<le> h"
  shows "l ^ 3 \<le> a * b * c" and "a * b * c \<le> h ^ 3"
proof -
  have "l * l \<le> a * b" using assms by (intro mult_mono) simp_all
  then have "l * l * l \<le> a * b * c" using assms by (intro mult_mono) simp_all
  then show "l ^ 3 \<le> a * b * c" by (simp add: power3_eq_cube)
  have "a * b \<le> h * h" using assms by (intro mult_mono) simp_all
  then have "a * b * c \<le> h * h * h" using assms by (intro mult_mono) simp_all
  then show "a * b * c \<le> h ^ 3" by (simp add: power3_eq_cube)
qed

lemma prod4_bounds:
  fixes a b c d l h :: real
  assumes "0 < l" "l \<le> a" "a \<le> h" "l \<le> b" "b \<le> h" "l \<le> c" "c \<le> h" "l \<le> d" "d \<le> h"
  shows "l ^ 4 \<le> a * b * c * d" and "a * b * c * d \<le> h ^ 4"
proof -
  have 3: "l ^ 3 \<le> a * b * c" "a * b * c \<le> h ^ 3"
    by (rule prod3_bounds [OF assms(1-7)])+
  have "l ^ 3 * l \<le> a * b * c * d" using assms 3 by (intro mult_mono) simp_all
  then show "l ^ 4 \<le> a * b * c * d" by (simp add: power3_eq_cube power4_eq_xxxx)
  have "0 \<le> a * b * c" using 3(1) assms(1) by (meson less_eq_real_def order_trans zero_le_power)
  then have "a * b * c * d \<le> h ^ 3 * h" using assms 3 by (intro mult_mono) simp_all
  then show "a * b * c * d \<le> h ^ 4" by (simp add: power3_eq_cube power4_eq_xxxx)
qed

lemma quotient_near_one:
  fixes N D :: real
  assumes N: "(1 - 1 / 2 ^ 53) ^ 3 \<le> N" "N \<le> (1 + 1 / 2 ^ 53) ^ 3"
      and D: "(1 - 1 / 2 ^ 53) ^ 4 \<le> D" "D \<le> (1 + 1 / 2 ^ 53) ^ 4"
  shows "\<bar>N / D - 1\<bar> \<le> 1 / 2 ^ 50"
proof -
  have Dpos: "0 < D"
  proof -
    have "0 < (1 - 1 / 2 ^ 53 :: real) ^ 4" by simp
    then show ?thesis using D(1) by linarith
  qed
  have "N \<le> (1 + 1 / 2 ^ 50) * D"
  proof -
    have "(1 + 1 / 2 ^ 50) * (1 - 1 / 2 ^ 53 :: real) ^ 4 \<le> (1 + 1 / 2 ^ 50) * D"
      using D(1) by (intro mult_left_mono) simp_all
    then show ?thesis using N(2) unit_roundoff_numbers(1) by linarith
  qed
  then have up: "N / D \<le> 1 + 1 / 2 ^ 50"
    using Dpos by (simp add: pos_divide_le_eq)
  have "(1 - 1 / 2 ^ 50) * D \<le> N"
  proof -
    have "(1 - 1 / 2 ^ 50) * D \<le> (1 - 1 / 2 ^ 50) * (1 + 1 / 2 ^ 53 :: real) ^ 4"
      using D(2) by (intro mult_left_mono) simp_all
    then show ?thesis using N(1) unit_roundoff_numbers(2) by linarith
  qed
  then have lo: "1 - 1 / 2 ^ 50 \<le> N / D"
    using Dpos by (simp add: pos_le_divide_eq)
  show ?thesis using up lo unfolding abs_le_iff by linarith
qed

section \<open>The rank correlation\<close>

subsection \<open>The Cauchy-Schwarz inequality on lists\<close>

lemma dot_Nil [simp]: "dot [] ys = 0" "dot xs [] = 0"
  by (simp_all add: dot_def)

lemma dot_Cons [simp]: "dot (x # xs) (y # ys) = x * y + dot xs ys"
  by (simp add: dot_def)

lemma dot_self_nonneg: "0 \<le> dot xs xs"
  by (induction xs) simp_all

lemma dot_self_zero_iff: "dot xs xs = 0 \<longleftrightarrow> (\<forall>x\<in>set xs. x = 0)"
proof (induction xs)
  case (Cons x xs)
  have "x * x + dot xs xs = 0 \<longleftrightarrow> x * x = 0 \<and> dot xs xs = 0"
    using dot_self_nonneg [of xs] by (simp add: add_nonneg_eq_0_iff)
  then show ?case using Cons by simp
qed simp

lemma quadratic_expand:
  "length xs = length ys \<Longrightarrow>
   (\<Sum>(x, y)\<leftarrow>zip xs ys. (t * x + y)\<^sup>2) = dot xs xs * t\<^sup>2 + 2 * dot xs ys * t + dot ys ys"
  by (induction xs ys rule: list_induct2) (simp_all add: power2_eq_square algebra_simps)

lemma quadratic_nonneg:
  assumes "length xs = length ys"
  shows "0 \<le> dot xs xs * t\<^sup>2 + 2 * dot xs ys * t + dot ys ys"
proof -
  have "0 \<le> (\<Sum>(x, y)\<leftarrow>zip xs ys. (t * x + y)\<^sup>2)"
    by (rule sum_list_nonneg) auto
  then show ?thesis using quadratic_expand [OF assms] by simp
qed

lemma cauchy_schwarz_dot:
  assumes len: "length xs = length ys"
  shows "(dot xs ys)\<^sup>2 \<le> dot xs xs * dot ys ys"
proof (cases "dot xs xs = 0")
  case True
  have "dot xs ys = 0"
  proof (rule ccontr)
    assume nz: "dot xs ys \<noteq> 0"
    have "0 \<le> dot xs xs * (- (dot ys ys + 1) / (2 * dot xs ys))\<^sup>2
              + 2 * dot xs ys * (- (dot ys ys + 1) / (2 * dot xs ys)) + dot ys ys"
      by (rule quadratic_nonneg [OF len])
    then show False using True nz by simp
  qed
  then show ?thesis using True by simp
next
  case False
  then have pos: "0 < dot xs xs" using dot_self_nonneg [of xs] by simp
  have "0 \<le> dot xs xs * (- dot xs ys / dot xs xs)\<^sup>2
            + 2 * dot xs ys * (- dot xs ys / dot xs xs) + dot ys ys"
    by (rule quadratic_nonneg [OF len])
  then have "0 \<le> dot ys ys - (dot xs ys)\<^sup>2 / dot xs xs"
    using pos by (simp add: power2_eq_square field_simps)
  then show ?thesis using pos by (simp add: field_simps)
qed

lemma abs_dot_le:
  assumes "length xs = length ys"
  shows "\<bar>dot xs ys\<bar> \<le> sqrt (dot xs xs) * sqrt (dot ys ys)"
proof -
  have "sqrt ((dot xs ys)\<^sup>2) \<le> sqrt (dot xs xs * dot ys ys)"
    using cauchy_schwarz_dot [OF assms] by (simp only: real_sqrt_le_iff)
  then show ?thesis by (simp add: real_sqrt_mult)
qed

lemma length_center [simp]: "length (center xs) = length xs"
  by (simp add: center_def)

lemma pearson_bounds:
  assumes "length xs = length ys"
  shows "- 1 \<le> pearson xs ys \<and> pearson xs ys \<le> 1"
proof -
  let ?d = "sqrt (dot (center xs) (center xs)) * sqrt (dot (center ys) (center ys))"
  have d: "0 \<le> ?d" by (simp add: dot_self_nonneg)
  have b: "\<bar>dot (center xs) (center ys)\<bar> \<le> ?d"
    by (rule abs_dot_le) (simp add: assms)
  show ?thesis
  proof (cases "?d = 0")
    case True
    have "pearson xs ys = dot (center xs) (center ys) / ?d"
      by (simp only: pearson_def)
    then have "pearson xs ys = 0" by (simp only: True div_by_0)
    then show ?thesis by simp
  next
    case False
    with d have "0 < ?d" by (metis order_le_less)
    then show ?thesis using b by (simp add: pearson_def pos_le_divide_eq pos_divide_le_eq abs_le_iff)
  qed
qed



subsection \<open>What \<^verbatim>\<open>np.corrcoef\<close> returns\<close>

lemma center_short: "length xs \<le> 1 \<Longrightarrow> dot (center xs) (center xs) = 0"
proof (cases xs)
  case (Cons a as)
  assume "length xs \<le> 1"
  with Cons have "as = []" by simp
  with Cons show ?thesis by (simp add: center_def mean_def)
qed (simp add: center_def)



lemma rounded_corr_close:
  assumes A: "0 < A" and C: "0 < C" and n: "1 < n"
  shows "\<bar>rounded_corr A B C n - B / (sqrt A * sqrt C)\<bar> \<le> \<bar>B / (sqrt A * sqrt C)\<bar> / 2 ^ 50"
proof -
  let ?l = "1 - 1 / 2 ^ 53 :: real" and ?h = "1 + 1 / 2 ^ 53 :: real"
  have l: "0 < ?l" by simp
  define r where "r = fl (1 / (n - 1))"
  have r: "0 < r" unfolding r_def using n by (intro fl_pos) simp
  define s where "s = sqrt r"
  have s: "0 < s" "s * s = r" using r by (simp_all add: s_def)
  define a where "a = sqrt A"
  define c where "c = sqrt C"
  have a: "0 < a" and c: "0 < c" using A C by (simp_all add: a_def c_def)
  obtain \<rho>1 where 1: "fl (B * r) = B * r * \<rho>1" "?l \<le> \<rho>1" "\<rho>1 \<le> ?h"
    by (rule fl_ratio)
  obtain \<rho>2 where 2: "fl (A * r) = A * r * \<rho>2" "?l \<le> \<rho>2" "\<rho>2 \<le> ?h"
    by (rule fl_ratio)
  obtain \<rho>3 where 3: "fl (sqrt (fl (A * r))) = sqrt (fl (A * r)) * \<rho>3" "?l \<le> \<rho>3" "\<rho>3 \<le> ?h"
    by (rule fl_ratio)
  obtain \<rho>4 where 4: "fl (C * r) = C * r * \<rho>4" "?l \<le> \<rho>4" "\<rho>4 \<le> ?h"
    by (rule fl_ratio)
  obtain \<rho>5 where 5: "fl (sqrt (fl (C * r))) = sqrt (fl (C * r)) * \<rho>5" "?l \<le> \<rho>5" "\<rho>5 \<le> ?h"
    by (rule fl_ratio)
  define sx where "sx = fl (sqrt (fl (A * r)))"
  define sy where "sy = fl (sqrt (fl (C * r)))"
  obtain \<rho>6 where 6: "fl (fl (B * r) / sx) = fl (B * r) / sx * \<rho>6" "?l \<le> \<rho>6" "\<rho>6 \<le> ?h"
    by (rule fl_ratio)
  obtain \<rho>7 where 7: "fl (fl (fl (B * r) / sx) / sy) = fl (fl (B * r) / sx) / sy * \<rho>7"
      "?l \<le> \<rho>7" "\<rho>7 \<le> ?h"
    by (rule fl_ratio)
  define \<sigma>2 where "\<sigma>2 = sqrt \<rho>2"
  define \<sigma>4 where "\<sigma>4 = sqrt \<rho>4"
  have \<sigma>2: "?l \<le> \<sigma>2" "\<sigma>2 \<le> ?h" unfolding \<sigma>2_def using 2(2,3) by (rule sqrt_near_one)+
  have \<sigma>4: "?l \<le> \<sigma>4" "\<sigma>4 \<le> ?h" unfolding \<sigma>4_def using 4(2,3) by (rule sqrt_near_one)+
  have "sx = sqrt (fl (A * r)) * \<rho>3" by (simp only: sx_def 3(1))
  also have "\<dots> = sqrt (A * r * \<rho>2) * \<rho>3" by (simp only: 2(1))
  finally have sxv: "sx = a * s * \<sigma>2 * \<rho>3"
    by (simp add: real_sqrt_mult a_def s_def \<sigma>2_def)
  have "sy = sqrt (fl (C * r)) * \<rho>5" by (simp only: sy_def 5(1))
  also have "\<dots> = sqrt (C * r * \<rho>4) * \<rho>5" by (simp only: 4(1))
  finally have syv: "sy = c * s * \<sigma>4 * \<rho>5"
    by (simp add: real_sqrt_mult c_def s_def \<sigma>4_def)
  define N where "N = \<rho>1 * \<rho>6 * \<rho>7"
  define D where "D = \<sigma>2 * \<sigma>4 * \<rho>3 * \<rho>5"
  have pos: "0 < \<sigma>2" "0 < \<sigma>4" "0 < \<rho>3" "0 < \<rho>5"
    using l \<sigma>2(1) \<sigma>4(1) 3(2) 5(2) by linarith+
  have q: "rounded_corr A B C n = B / (a * c) * (N / D)"
  proof -
    have "rounded_corr A B C n = fl (fl (fl (B * r) / sx) / sy)"
      by (simp add: rounded_corr_def r_def sx_def sy_def)
    also have "\<dots> = fl (fl (B * r) / sx) / sy * \<rho>7" by (simp only: 7(1))
    also have "\<dots> = fl (B * r) / sx * \<rho>6 / sy * \<rho>7" by (simp only: 6(1))
    also have "\<dots> = B * r * \<rho>1 / sx * \<rho>6 / sy * \<rho>7" by (simp only: 1(1))
    also have "\<dots> = B * (s * s) * \<rho>1 / (a * s * \<sigma>2 * \<rho>3) * \<rho>6 / (c * s * \<sigma>4 * \<rho>5) * \<rho>7"
      unfolding sxv syv s(2) by simp
    also have "\<dots> = B / (a * c) * (N / D)"
      using s(1) a c pos by (simp add: N_def D_def field_simps)
    finally show ?thesis .
  qed
  have Nb: "?l ^ 3 \<le> N" "N \<le> ?h ^ 3"
    unfolding N_def by (rule prod3_bounds [OF l 1(2,3) 6(2,3) 7(2,3)])+
  have Db: "?l ^ 4 \<le> D" "D \<le> ?h ^ 4"
    unfolding D_def by (rule prod4_bounds [OF l \<sigma>2 \<sigma>4 3(2,3) 5(2,3)])+
  have near: "\<bar>N / D - 1\<bar> \<le> 1 / 2 ^ 50"
    using Nb Db by (rule quotient_near_one)
  have "rounded_corr A B C n - B / (a * c) = B / (a * c) * (N / D - 1)"
    unfolding q by (simp add: right_diff_distrib)
  then have "\<bar>rounded_corr A B C n - B / (a * c)\<bar> = \<bar>B / (a * c)\<bar> * \<bar>N / D - 1\<bar>"
    by (simp only: abs_mult)
  also have "\<dots> \<le> \<bar>B / (a * c)\<bar> * (1 / 2 ^ 50)"
    using near by (intro mult_left_mono) simp_all
  finally show ?thesis by (simp add: a_def c_def)
qed

lemma clip_closer:
  fixes q p :: real
  assumes "- 1 \<le> p" and "p \<le> 1"
  shows "\<bar>max (- 1) (min 1 q) - p\<bar> \<le> \<bar>q - p\<bar>"
  using assms by (auto simp: max_def min_def)

lemma dot_zero_left:
  assumes "dot xs xs = 0" and "length xs = length ys"
  shows "dot xs ys = 0"
  using cauchy_schwarz_dot [OF assms(2)] assms(1) by simp

lemma np_cov_short:
  assumes "length xs \<le> 1" and "length ys = length xs"
  shows "np_cov xs ys = NaN"
proof -
  have "dot (center xs) (center xs) = 0" using assms(1) by (rule center_short)
  then have "dot (center xs) (center ys) = 0"
    by (rule dot_zero_left) (simp add: assms(2))
  moreover have "real (length xs) - 1 \<le> 0" using assms(1) by simp
  ultimately show ?thesis by (simp add: np_cov_def inf_of_sign_def)
qed

lemma np_cov_long:
  assumes "1 < length xs"
  shows "np_cov xs ys = Fin (fl (dot (center xs) (center ys) * fl (1 / (real (length xs) - 1))))"
  using assms by (simp add: np_cov_def)

lemma corr_degenerate:
  assumes len: "length xs = length ys"
      and deg: "dot (center xs) (center xs) = 0 \<or> dot (center ys) (center ys) = 0"
  shows "np_corrcoef xs ys = NaN"
proof (cases "length xs \<le> 1")
  case True
  then have "np_cov xs ys = NaN" by (rule np_cov_short) (simp add: len)
  then show ?thesis by (simp add: np_corrcoef_def)
next
  case False
  then have long: "1 < length xs" "1 < length ys" using len by simp_all
  let ?r = "fl (1 / (real (length xs) - 1))"
  let ?A = "dot (center xs) (center xs)"
  let ?C = "dot (center ys) (center ys)"
  have r: "0 < ?r" using long by (intro fl_pos) simp
  have B: "dot (center xs) (center ys) = 0"
    using cauchy_schwarz_dot [of "center xs" "center ys"] deg len by auto
  have cxy: "np_cov xs ys = Fin 0"
    unfolding np_cov_long [OF long(1)] B by simp
  have cxx: "np_cov xs xs = Fin (fl (?A * ?r))" by (rule np_cov_long [OF long(1)])
  have cyy: "np_cov ys ys = Fin (fl (?C * ?r))"
    unfolding np_cov_long [OF long(2)] len by (rule refl)
  show ?thesis
  proof (cases "?A = 0")
    case True
    then show ?thesis unfolding np_corrcoef_def cxy cxx cyy by simp
  next
    case False
    then have C: "?C = 0" using deg by simp
    have "0 < ?A" using False dot_self_nonneg [of "center xs"] by simp
    then have "0 < fl (?A * ?r)" using r by (intro fl_pos) simp
    then have "0 < fl (sqrt (fl (?A * ?r)))" by (intro fl_pos) simp
    then have nz: "fl (sqrt (fl (?A * ?r))) \<noteq> 0" "\<not> fl (?A * ?r) < 0"
      using \<open>0 < fl (?A * ?r)\<close> by simp_all
    show ?thesis unfolding np_corrcoef_def cxy cxx cyy C using nz by simp
  qed
qed

lemma corr_steps:
  assumes len: "length xs = length ys"
      and A: "dot (center xs) (center xs) \<noteq> 0" and C: "dot (center ys) (center ys) \<noteq> 0"
  shows "np_corrcoef xs ys =
     Fin (max (- 1) (min 1 (rounded_corr (dot (center xs) (center xs)) (dot (center xs) (center ys))
                                        (dot (center ys) (center ys)) (real (length xs)))))"
proof -
  let ?r = "fl (1 / (real (length xs) - 1))"
  let ?A = "dot (center xs) (center xs)"
  let ?B = "dot (center xs) (center ys)"
  let ?C = "dot (center ys) (center ys)"
  have long: "1 < length xs" using center_short [of xs] A by (cases "length xs \<le> 1") auto
  have r: "0 < ?r" using long by (intro fl_pos) simp
  have "0 < ?A" "0 < ?C"
    using A C dot_self_nonneg [of "center xs"] dot_self_nonneg [of "center ys"] by simp_all
  then have v: "0 < fl (?A * ?r)" "0 < fl (?C * ?r)" using r by (auto intro!: fl_pos)
  then have sd: "0 < fl (sqrt (fl (?A * ?r)))" "0 < fl (sqrt (fl (?C * ?r)))"
    by (auto intro!: fl_pos)
  have long': "1 < length ys" using long len by simp
  have cxy: "np_cov xs ys = Fin (fl (?B * ?r))" by (rule np_cov_long [OF long])
  have cxx: "np_cov xs xs = Fin (fl (?A * ?r))" by (rule np_cov_long [OF long])
  have cyy: "np_cov ys ys = Fin (fl (?C * ?r))"
    unfolding np_cov_long [OF long'] len by (rule refl)
  have nz: "fl (sqrt (fl (?A * ?r))) \<noteq> 0" "fl (sqrt (fl (?C * ?r))) \<noteq> 0"
      "\<not> fl (?A * ?r) < 0" "\<not> fl (?C * ?r) < 0"
    using v sd by simp_all
  show ?thesis
    unfolding np_corrcoef_def cxy cxx cyy rounded_corr_def using nz by simp
qed

lemma corr_close:
  assumes len: "length xs = length ys"
      and A: "dot (center xs) (center xs) \<noteq> 0" and C: "dot (center ys) (center ys) \<noteq> 0"
  shows "\<exists>s. np_corrcoef xs ys = Fin s \<and> \<bar>s - pearson xs ys\<bar> \<le> \<bar>pearson xs ys\<bar> / 2 ^ 50
             \<and> - 1 \<le> s \<and> s \<le> 1"
proof -
  let ?A = "dot (center xs) (center xs)"
  let ?B = "dot (center xs) (center ys)"
  let ?C = "dot (center ys) (center ys)"
  let ?q = "rounded_corr ?A ?B ?C (real (length xs))"
  have long: "1 < length xs" using center_short [of xs] A by (cases "length xs \<le> 1") auto
  have pos: "0 < ?A" "0 < ?C"
    using A C dot_self_nonneg [of "center xs"] dot_self_nonneg [of "center ys"] by simp_all
  have "\<bar>?q - ?B / (sqrt ?A * sqrt ?C)\<bar> \<le> \<bar>?B / (sqrt ?A * sqrt ?C)\<bar> / 2 ^ 50"
    using pos long by (intro rounded_corr_close) simp_all
  then have close: "\<bar>?q - pearson xs ys\<bar> \<le> \<bar>pearson xs ys\<bar> / 2 ^ 50"
    by (simp only: pearson_def)
  have bnd: "- 1 \<le> pearson xs ys" "pearson xs ys \<le> 1"
    using pearson_bounds [OF len] by simp_all
  have "\<bar>max (- 1) (min 1 ?q) - pearson xs ys\<bar> \<le> \<bar>?q - pearson xs ys\<bar>"
    using bnd by (rule clip_closer)
  then have "\<bar>max (- 1) (min 1 ?q) - pearson xs ys\<bar> \<le> \<bar>pearson xs ys\<bar> / 2 ^ 50"
    using close by linarith
  moreover have "- 1 \<le> max (- 1) (min 1 ?q)" "max (- 1) (min 1 ?q) \<le> 1" by simp_all
  ultimately show ?thesis using corr_steps [OF len A C] by blast
qed


subsection \<open>The order of the window does not matter\<close>

lemma length_rank [simp]: "length (rank xs) = length xs"
  by (simp add: rank_def)

lemma filter_length_rev: "length (filter P (rev xs)) = length (filter P xs)"
  by (simp flip: rev_filter)

lemma rank_rev: "rank (rev xs) = rev (rank xs)"
  by (simp add: rank_def rev_map filter_length_rev)

lemma mean_rev: "mean (rev xs) = mean xs"
  by (simp add: mean_def sum_list_rev)

lemma center_rev: "center (rev xs) = rev (center xs)"
  by (simp add: center_def mean_rev rev_map)

lemma dot_rev: "length xs = length ys \<Longrightarrow> dot (rev xs) (rev ys) = dot xs ys"
  by (simp add: dot_def zip_rev sum_list_rev flip: rev_map)

lemma pearson_rev: "length xs = length ys \<Longrightarrow> pearson (rev xs) (rev ys) = pearson xs ys"
  by (simp add: pearson_def center_rev dot_rev)

lemma spec_signal_rev:
  "length xs = length ys \<Longrightarrow> spec_signal (rev xs) (rev ys) = spec_signal xs ys"
  by (simp add: spec_signal_def rank_rev center_rev dot_rev pearson_rev Let_def)

lemma collect_Inr: "collect (map (\<lambda>k. Inr (g k)) ks) = Inr (map g ks)"
  by (induction ks) simp_all

lemma lookback_window:
  assumes "L \<le> i + 1" and "i < length xs"
  shows "lookback xs i L = Inr (rev (window xs i L))"
proof -
  have m: "map (\<lambda>k. line_getitem xs i (- int k)) [0..<L] = map (\<lambda>k. Inr (xs ! (i - k))) [0..<L]"
  proof (rule map_cong [OF refl])
    fix k assume "k \<in> set [0..<L]"
    then have k: "k \<le> i" using assms(1) by simp
    then have "nat (int i - int k) = i - k" by simp
    then show "line_getitem xs i (- int k) = Inr (xs ! (i - k))"
      using k assms(2) by (simp add: line_getitem_def py_getitem_def)
  qed
  have w: "map (\<lambda>k. xs ! (i - k)) [0..<L] = rev (window xs i L)"
  proof (rule nth_equalityI)
    show "length (map (\<lambda>k. xs ! (i - k)) [0..<L]) = length (rev (window xs i L))"
      using assms by (simp add: window_def)
  next
    fix k assume "k < length (map (\<lambda>k. xs ! (i - k)) [0..<L])"
    then have k: "k < L" by simp
    then show "map (\<lambda>k. xs ! (i - k)) [0..<L] ! k = rev (window xs i L) ! k"
      using assms by (simp add: window_def rev_nth)
  qed
  show ?thesis unfolding lookback_def m collect_Inr w by (rule refl)
qed

lemma length_window: "L \<le> i + 1 \<Longrightarrow> i < length xs \<Longrightarrow> length (window xs i L) = L"
  by (simp add: window_def)

lemma window_map: "window (map f xs) i L = map f (window xs i L)"
  by (simp add: window_def take_map drop_map)

lemma collect_length: "collect rs = Inr vs \<Longrightarrow> length vs = length rs"
  by (induction rs arbitrary: vs) (auto split: sum.splits)

lemma lookback_length: "lookback xs i L = Inr vs \<Longrightarrow> length vs = L"
  by (auto simp: lookback_def dest: collect_length)

lemma upt_3: "[0..<3] = [0, 1, 2]" and upt_2: "[0..<2] = [0, 1]"
  by (simp_all add: upt_rec)




subsection \<open>The signal of a window\<close>

lemma spec_signal_cases:
  "spec_signal os vs = NaN \<longleftrightarrow>
     dot (center (rank os)) (center (rank os)) = 0 \<or> dot (center (rank vs)) (center (rank vs)) = 0"
  "spec_signal os vs = Fin p \<longleftrightarrow>
     dot (center (rank os)) (center (rank os)) \<noteq> 0 \<and> dot (center (rank vs)) (center (rank vs)) \<noteq> 0
     \<and> p = - pearson (rank os) (rank vs)"
  by (auto simp: spec_signal_def Let_def)

lemma spec_signal_range:
  assumes "length xs = length ys"
  shows "spec_signal xs ys = NaN \<or> (\<exists>r. spec_signal xs ys = Fin r \<and> - 1 \<le> r \<and> r \<le> 1)"
  using pearson_bounds [of "rank xs" "rank ys"] assms
  by (auto simp add: spec_signal_def Let_def)

lemma alpha_signal_eq:
  assumes "lookback (map open (bars d)) (idx d) L = Inr os"
      and "lookback (map volume (bars d)) (idx d) L = Inr vs"
  shows "alpha_signal L d = Inr (f_mul (Fin (- 1)) (series_corr (rank os) (rank vs)))"
  using assms by (simp add: alpha_signal_def Let_def)

lemma series_corr_degenerate:
  assumes "length xs = length ys"
      and "dot (center xs) (center xs) = 0 \<or> dot (center ys) (center ys) = 0"
  shows "series_corr xs ys = NaN"
  using corr_degenerate [OF assms] by (simp add: series_corr_def)

lemma series_corr_regular:
  assumes "dot (center xs) (center xs) \<noteq> 0"
  shows "series_corr xs ys = np_corrcoef xs ys"
proof -
  have "xs \<noteq> []" using assms by (auto simp: center_def)
  then show ?thesis by (simp add: series_corr_def)
qed

lemma alpha_of_windows_nan:
  assumes "lookback (map open (bars d)) (idx d) L = Inr os"
      and "lookback (map volume (bars d)) (idx d) L = Inr vs"
      and "spec_signal os vs = NaN"
  shows "alpha_signal L d = Inr NaN"
proof -
  have "length (rank os) = length (rank vs)" using assms(1,2) by (simp add: lookback_length)
  then have "series_corr (rank os) (rank vs) = NaN"
    using assms(3) by (intro series_corr_degenerate) (simp_all add: spec_signal_cases)
  then show ?thesis using alpha_signal_eq [OF assms(1,2)] by simp
qed

lemma alpha_of_windows_fin:
  assumes "lookback (map open (bars d)) (idx d) L = Inr os"
      and "lookback (map volume (bars d)) (idx d) L = Inr vs"
      and "spec_signal os vs = Fin p"
  shows "\<exists>s. alpha_signal L d = Inr (Fin s) \<and> \<bar>s - p\<bar> \<le> \<bar>p\<bar> / 2 ^ 50 \<and> - 1 \<le> s \<and> s \<le> 1"
proof -
  have len: "length (rank os) = length (rank vs)" using assms(1,2) by (simp add: lookback_length)
  have A: "dot (center (rank os)) (center (rank os)) \<noteq> 0"
    and C: "dot (center (rank vs)) (center (rank vs)) \<noteq> 0"
    and p: "p = - pearson (rank os) (rank vs)"
    using assms(3) by (simp_all add: spec_signal_cases)
  obtain s where s: "np_corrcoef (rank os) (rank vs) = Fin s"
      "\<bar>s - pearson (rank os) (rank vs)\<bar> \<le> \<bar>pearson (rank os) (rank vs)\<bar> / 2 ^ 50"
      "- 1 \<le> s" "s \<le> 1"
    using corr_close [OF len A C] by blast
  have "alpha_signal L d = Inr (Fin (- s))"
    using alpha_signal_eq [OF assms(1,2)] series_corr_regular [OF A] s(1) by simp
  moreover have "\<bar>- s - p\<bar> \<le> \<bar>p\<bar> / 2 ^ 50" using s(2) by (simp add: p abs_minus_commute)
  moreover have "- 1 \<le> - s" "- s \<le> 1" using s(3,4) by simp_all
  ultimately show ?thesis by blast
qed

lemma alpha_of_windows_steps:
  assumes "lookback (map open (bars d)) (idx d) L = Inr os"
      and "lookback (map volume (bars d)) (idx d) L = Inr vs"
      and "dot (center (rank os)) (center (rank os)) = A" and "A \<noteq> 0"
      and "dot (center (rank vs)) (center (rank vs)) = C" and "C \<noteq> 0"
      and "dot (center (rank os)) (center (rank vs)) = B"
  shows "alpha_signal L d = Inr (Fin (- max (- 1) (min 1 (rounded_corr A B C (real L)))))"
proof -
  have len: "length (rank os) = length (rank vs)" using assms(1,2) by (simp add: lookback_length)
  have L: "length (rank os) = L" using assms(1) by (simp add: lookback_length)
  have "np_corrcoef (rank os) (rank vs) = Fin (max (- 1) (min 1 (rounded_corr A B C (real L))))"
    using corr_steps [OF len] assms(3-7) L by simp
  then show ?thesis
    using alpha_signal_eq [OF assms(1,2)] series_corr_regular [of "rank os" "rank vs"] assms(3,4)
    by simp
qed

lemma rounded_corr_tied: "rounded_corr (3 / 2) (3 / 4) (3 / 2) 3 = 4503599627370497 / 2 ^ 53"
proof -
  have r: "fl (1 / (3 - 1)) = 4503599627370496 / 2 ^ 53"
    using fl_eqI [of "1 / (3 - 1)" 53 "4503599627370496"] by simp
  have cxy: "fl (3 / 4 * (4503599627370496 / 2 ^ 53)) = 6755399441055744 / 2 ^ 54"
    using fl_eqI [of "3 / 4 * (4503599627370496 / 2 ^ 53)" 54 "6755399441055744"] by simp
  have cxx: "fl (3 / 2 * (4503599627370496 / 2 ^ 53)) = 6755399441055744 / 2 ^ 53"
    using fl_eqI [of "3 / 2 * (4503599627370496 / 2 ^ 53)" 53 "6755399441055744"] by simp
  have sx: "fl (sqrt (6755399441055744 / 2 ^ 53)) = 7800463371553962 / 2 ^ 53"
    using fl_sqrt_eqI [of 7800463371553962 53 "6755399441055744 / 2 ^ 53"] by (simp add: power2_eq_square)
  have t: "fl (6755399441055744 / 2 ^ 54 / (7800463371553962 / 2 ^ 53)) = 7800463371553963 / 2 ^ 54"
    using fl_eqI [of "6755399441055744 / 2 ^ 54 / (7800463371553962 / 2 ^ 53)" 54 "7800463371553963"] by simp
  have q: "fl (7800463371553963 / 2 ^ 54 / (7800463371553962 / 2 ^ 53)) = 4503599627370497 / 2 ^ 53"
    using fl_eqI [of "7800463371553963 / 2 ^ 54 / (7800463371553962 / 2 ^ 53)" 53 "4503599627370497"] by simp
  show ?thesis unfolding rounded_corr_def r cxy cxx sx t q by (rule refl)
qed


text \<open>
  Claim C1 fails as stated.  \<^verbatim>\<open>np.corrcoef\<close> rounds its square roots and quotients,
  and its result need not be the exact coefficient.  On the last of the four bars with
  open 1, 1, 1, 2 and volume 3, 1, 2, 2, with a lookback period of 3, the exact negated
  correlation of the ranks is \<open>-1/2\<close>, on which no order would be emitted; the signal
  computed is \<open>-1/2 - 2\<^sup>-\<^sup>5\<^sup>3\<close>, strictly below the threshold, and the bar emits a BUY.
\<close>

theorem rounding_changes_signal:
  "alpha_signal 3 \<lparr>bars = [flat_bar 1 3, flat_bar 1 1, flat_bar 1 2, flat_bar 2 2], idx = 3\<rparr>
     = Inr (Fin (- (4503599627370497 / 2 ^ 53)))
   \<and> spec_signal
        (window (map open [flat_bar 1 3, flat_bar 1 1, flat_bar 1 2, flat_bar 2 2]) 3 3)
        (window (map volume [flat_bar 1 3, flat_bar 1 1, flat_bar 1 2, flat_bar 2 2]) 3 3)
     = Fin (- (1 / 2))
   \<and> strategy_next 3 \<lparr>bars = [flat_bar 1 3, flat_bar 1 1, flat_bar 1 2, flat_bar 2 2], idx = 3\<rparr> 0
     = Inr (Fin (- (4503599627370497 / 2 ^ 53)), [Buy])
   \<and> signal_orders (Fin (- (1 / 2))) 0 = []"
proof -
  let ?d = "\<lparr>bars = [flat_bar 1 3, flat_bar 1 1, flat_bar 1 2, flat_bar 2 2], idx = 3\<rparr>"
  have o: "lookback (map open (bars ?d)) (idx ?d) 3 = Inr [2, 1, 1]"
    by (simp add: lookback_def line_getitem_def py_getitem_def flat_bar_def upt_3)
  have v: "lookback (map volume (bars ?d)) (idx ?d) 3 = Inr [2, 2, 1]"
    by (simp add: lookback_def line_getitem_def py_getitem_def flat_bar_def upt_3)
  have ro: "center (rank [2, 1, 1]) = [1, - (1/2), - (1/2)]"
    by (simp add: rank_def center_def mean_def)
  have rv: "center (rank [2, 2, 1]) = [1/2, 1/2, - 1]"
    by (simp add: rank_def center_def mean_def)
  have a: "alpha_signal 3 ?d = Inr (Fin (- max (- 1) (min 1 (rounded_corr (3/2) (3/4) (3/2) (real 3)))))"
    by (rule alpha_of_windows_steps [OF o v]) (simp_all add: ro rv)
  then have a': "alpha_signal 3 ?d = Inr (Fin (- (4503599627370497 / 2 ^ 53)))"
    by (simp add: rounded_corr_tied)
  have s: "spec_signal (window (map open [flat_bar 1 3, flat_bar 1 1, flat_bar 1 2, flat_bar 2 2]) 3 3)
        (window (map volume [flat_bar 1 3, flat_bar 1 1, flat_bar 1 2, flat_bar 2 2]) 3 3)
     = Fin (- (1 / 2))"
    by (simp add: window_def flat_bar_def spec_signal_def rank_def center_def mean_def pearson_def)
  have n: "strategy_next 3 ?d 0 = Inr (Fin (- (4503599627370497 / 2 ^ 53)), [Buy])"
    by (simp add: strategy_next_def a' signal_orders_def)
  have h: "signal_orders (Fin (- (1 / 2))) 0 = []"
    by (simp add: signal_orders_def)
  show ?thesis using a' s n h by simp
qed

text \<open>
  Claim C1, amended.  On every bar that has at least \<open>L\<close> bars of history, itself
  included, \<^verbatim>\<open>next\<close> computes a signal from the \<open>L\<close> most recent open values and the
  \<open>L\<close> most recent volume values of the feed it reads.  The signal is NaN when the
  average ranks of either window have no variance; otherwise it is a number between
  \<open>-1\<close> and \<open>1\<close> that differs from the negated Pearson correlation \<open>p\<close> of the ranks by
  at most \<open>\<bar>p\<bar> / 2\<^sup>5\<^sup>0\<close>, the rounding of \<^verbatim>\<open>np.corrcoef\<close>.  The lookback period is
  below \<open>2\<^sup>1\<^sup>7\<close>, the range in which the sums over the ranks are exact.
\<close>

theorem alpha_close_to_rank_correlation:
  assumes "L \<le> idx d + 1" and "idx d < length (bars d)" and "L < 2 ^ 17"
  shows "\<exists>a. alpha_signal L d = Inr a
     \<and> (spec_signal (window (map open (bars d)) (idx d) L)
                     (window (map volume (bars d)) (idx d) L) = NaN \<longrightarrow> a = NaN)
     \<and> (\<forall>p. spec_signal (window (map open (bars d)) (idx d) L)
                         (window (map volume (bars d)) (idx d) L) = Fin p \<longrightarrow>
            (\<exists>s. a = Fin s \<and> \<bar>s - p\<bar> \<le> \<bar>p\<bar> / 2 ^ 50 \<and> - 1 \<le> s \<and> s \<le> 1))"
proof -
  let ?o = "window (map open (bars d)) (idx d) L"
  let ?v = "window (map volume (bars d)) (idx d) L"
  have len: "length ?o = length ?v" by (simp add: window_def)
  have o: "lookback (map open (bars d)) (idx d) L = Inr (rev ?o)"
    and v: "lookback (map volume (bars d)) (idx d) L = Inr (rev ?v)"
    using assms(1,2) by (simp_all add: lookback_window)
  have sp: "spec_signal (rev ?o) (rev ?v) = spec_signal ?o ?v"
    using len by (rule spec_signal_rev)
  consider "spec_signal ?o ?v = NaN" | p where "spec_signal ?o ?v = Fin p"
    using spec_signal_range [OF len] by blast
  then show ?thesis
  proof cases
    case 1
    then have "alpha_signal L d = Inr NaN"
      using alpha_of_windows_nan [OF o v] sp by simp
    then show ?thesis using 1 by simp
  next
    case 2
    then obtain s where "alpha_signal L d = Inr (Fin s)" "\<bar>s - p\<bar> \<le> \<bar>p\<bar> / 2 ^ 50"
        "- 1 \<le> s" "s \<le> 1"
      using alpha_of_windows_fin [OF o v, of p] sp by auto
    then show ?thesis using 2 by simp
  qed
qed

theorem alpha_close_to_rank_correlation_witness:
  "(3::nat) \<le> idx \<lparr>bars = [flat_bar 1 3, flat_bar 2 1, flat_bar 3 2], idx = 2\<rparr> + 1
   \<and> (3::nat) < 2 ^ 17
   \<and> idx \<lparr>bars = [flat_bar 1 3, flat_bar 2 1, flat_bar 3 2], idx = 2\<rparr>
        < length (bars \<lparr>bars = [flat_bar 1 3, flat_bar 2 1, flat_bar 3 2], idx = 2\<rparr>)
   \<and> (\<exists>s. alpha_signal 3 \<lparr>bars = [flat_bar 1 3, flat_bar 2 1, flat_bar 3 2], idx = 2\<rparr>
              = Inr (Fin s)
          \<and> \<bar>s - 1 / 2\<bar> \<le> \<bar>1 / 2\<bar> / 2 ^ 50 \<and> - 1 \<le> s \<and> s \<le> 1)"
proof -
  let ?d = "\<lparr>bars = [flat_bar 1 3, flat_bar 2 1, flat_bar 3 2], idx = 2\<rparr>"
  have s: "spec_signal (window (map open (bars ?d)) (idx ?d) 3)
                       (window (map volume (bars ?d)) (idx ?d) 3) = Fin (1 / 2)"
    by (simp add: window_def flat_bar_def spec_signal_def rank_def center_def mean_def pearson_def)
  have h: "(3::nat) \<le> idx ?d + 1" "idx ?d < length (bars ?d)" "(3::nat) < 2 ^ 17"
    by simp_all
  obtain a where a: "alpha_signal 3 ?d = Inr a"
    and f: "\<forall>p. spec_signal (window (map open (bars ?d)) (idx ?d) 3)
                            (window (map volume (bars ?d)) (idx ?d) 3) = Fin p \<longrightarrow>
              (\<exists>s. a = Fin s \<and> \<bar>s - p\<bar> \<le> \<bar>p\<bar> / 2 ^ 50 \<and> - 1 \<le> s \<and> s \<le> 1)"
    using alpha_close_to_rank_correlation [OF h] by (elim exE conjE) (erule that, assumption)
  obtain v where "a = Fin v" "\<bar>v - 1 / 2\<bar> \<le> \<bar>1 / 2\<bar> / 2 ^ 50" "- 1 \<le> v" "v \<le> 1"
    using f s by blast
  then show ?thesis using a h by blast
qed


section \<open>Windows without variance\<close>

lemma sum_list_const: "\<forall>x\<in>set xs. x = v \<Longrightarrow> sum_list xs = real (length xs) * v"
  by (induction xs) (simp_all add: algebra_simps)

lemma center_all_equal:
  assumes "all_equal xs"
  shows "\<forall>c\<in>set (center xs). c = 0"
proof (cases xs)
  case Nil
  then show ?thesis by (simp add: center_def)
next
  case (Cons a as)
  then have all: "\<forall>x\<in>set xs. x = a" using assms by (auto simp: all_equal_def)
  then have "mean xs = a"
    using sum_list_const [of xs a] Cons by (simp add: mean_def)
  then show ?thesis using all by (simp add: center_def)
qed

lemma rank_all_equal: "all_equal xs \<Longrightarrow> all_equal (rank xs)"
  by (auto simp: all_equal_def rank_def)

lemma all_equal_no_variance:
  assumes "all_equal xs"
  shows "dot (center (rank xs)) (center (rank xs)) = 0"
proof -
  have "all_equal (rank xs)" using assms by (rule rank_all_equal)
  then have "\<forall>c\<in>set (center (rank xs)). c = 0" by (rule center_all_equal)
  then show ?thesis by (simp only: dot_self_zero_iff)
qed


lemma degenerate_window_no_action:
  assumes "lookback (map open (bars d)) (idx d) L = Inr os"
      and "lookback (map volume (bars d)) (idx d) L = Inr vs"
      and "all_equal os \<or> all_equal vs"
  shows "strategy_next L d p = Inr (NaN, [])"
proof -
  have "spec_signal os vs = NaN"
    using assms(3) all_equal_no_variance [of os] all_equal_no_variance [of vs]
    by (auto simp: spec_signal_def Let_def)
  then have "alpha_signal L d = Inr NaN"
    by (rule alpha_of_windows_nan [OF assms(1,2)])
  then show ?thesis by (simp add: strategy_next_def signal_orders_def)
qed

lemma all_equal_rev: "all_equal (rev xs) = all_equal xs"
  by (simp add: all_equal_def)

text \<open>
  Claim C5.  Whenever the window that \<^verbatim>\<open>next\<close> reads holds identical open values or
  identical volume values, the bar ends without an exception, its signal is NaN and it
  emits no order, whatever the position.  On a bar with at least \<open>L\<close> bars of history
  the window is read without an exception, and it is the window of the \<open>L\<close> most recent
  bars.
\<close>

theorem no_action_without_variance:
  "(lookback (map open (bars d)) (idx d) L = Inr os
      \<and> lookback (map volume (bars d)) (idx d) L = Inr vs
      \<and> (all_equal os \<or> all_equal vs)
    \<longrightarrow> strategy_next L d p = Inr (NaN, []))
   \<and> (L \<le> idx d + 1 \<and> idx d < length (bars d)
      \<and> (all_equal (window (map open (bars d)) (idx d) L)
          \<or> all_equal (window (map volume (bars d)) (idx d) L))
    \<longrightarrow> strategy_next L d p = Inr (NaN, []))"
proof (intro conjI impI)
  assume "lookback (map open (bars d)) (idx d) L = Inr os
      \<and> lookback (map volume (bars d)) (idx d) L = Inr vs
      \<and> (all_equal os \<or> all_equal vs)"
  then show "strategy_next L d p = Inr (NaN, [])"
    using degenerate_window_no_action [of d L os vs p] by blast
next
  let ?o = "window (map open (bars d)) (idx d) L"
  let ?v = "window (map volume (bars d)) (idx d) L"
  assume a: "L \<le> idx d + 1 \<and> idx d < length (bars d) \<and> (all_equal ?o \<or> all_equal ?v)"
  then have "lookback (map open (bars d)) (idx d) L = Inr (rev ?o)"
    and "lookback (map volume (bars d)) (idx d) L = Inr (rev ?v)"
    by (simp_all add: lookback_window)
  moreover have "all_equal (rev ?o) \<or> all_equal (rev ?v)"
    using a by (simp only: all_equal_rev)
  ultimately show "strategy_next L d p = Inr (NaN, [])"
    by (rule degenerate_window_no_action)
qed

theorem no_action_without_variance_witness:
  "(3::nat) \<le> idx \<lparr>bars = [flat_bar 5 1, flat_bar 5 2, flat_bar 5 3], idx = 2\<rparr> + 1
   \<and> window (map open (bars \<lparr>bars = [flat_bar 5 1, flat_bar 5 2, flat_bar 5 3], idx = 2\<rparr>)) 2 3
      = [5, 5, 5]
   \<and> all_equal [5, 5, 5]
   \<and> lookback (map open (bars \<lparr>bars = [flat_bar 5 1, flat_bar 5 2, flat_bar 5 3], idx = 2\<rparr>)) 2 3
      = Inr [5, 5, 5]
   \<and> strategy_next 3 \<lparr>bars = [flat_bar 5 1, flat_bar 5 2, flat_bar 5 3], idx = 2\<rparr> 0
      = Inr (NaN, [])"
proof -
  have w: "window (map open (bars \<lparr>bars = [flat_bar 5 1, flat_bar 5 2, flat_bar 5 3], idx = 2\<rparr>))
             (idx \<lparr>bars = [flat_bar 5 1, flat_bar 5 2, flat_bar 5 3], idx = 2\<rparr>) 3 = [5, 5, 5]"
    by (simp add: window_def flat_bar_def)
  have o: "lookback (map open (bars \<lparr>bars = [flat_bar 5 1, flat_bar 5 2, flat_bar 5 3], idx = 2\<rparr>))
             (idx \<lparr>bars = [flat_bar 5 1, flat_bar 5 2, flat_bar 5 3], idx = 2\<rparr>) 3 = Inr [5, 5, 5]"
    by (simp add: lookback_def line_getitem_def py_getitem_def flat_bar_def upt_3)
  have c: "all_equal [5, 5, 5]"
    by (simp add: all_equal_def)
  show ?thesis
    using no_action_without_variance
      [of "\<lparr>bars = [flat_bar 5 1, flat_bar 5 2, flat_bar 5 3], idx = 2\<rparr>" 3 _ _ 0] w o c
    by simp
qed

section \<open>Bars without enough history\<close>

lemma strategy_next_steps:
  assumes "lookback (map open (bars d)) (idx d) L = Inr os"
      and "lookback (map volume (bars d)) (idx d) L = Inr vs"
      and "dot (center (rank os)) (center (rank os)) = A" and "A \<noteq> 0"
      and "dot (center (rank vs)) (center (rank vs)) = C" and "C \<noteq> 0"
      and "dot (center (rank os)) (center (rank vs)) = B"
  shows "strategy_next L d p =
     Inr (Fin (- max (- 1) (min 1 (rounded_corr A B C (real L)))),
          signal_orders (Fin (- max (- 1) (min 1 (rounded_corr A B C (real L))))) p)"
  using alpha_of_windows_steps [OF assms] by (simp add: strategy_next_def)

lemma strategy_next_close:
  assumes "lookback (map open (bars d)) (idx d) L = Inr os"
      and "lookback (map volume (bars d)) (idx d) L = Inr vs"
      and "spec_signal os vs = Fin p"
  shows "\<exists>s. strategy_next L d pos = Inr (Fin s, signal_orders (Fin s) pos)
             \<and> \<bar>s - p\<bar> \<le> \<bar>p\<bar> / 2 ^ 50"
  using alpha_of_windows_fin [OF assms] by (auto simp: strategy_next_def)

text \<open>
  What the reads of lines 110 and 111 deliver on any bar of a preloaded series: the
  values back to the first bar, then values from the end of the series, and an
  \<^verbatim>\<open>IndexError\<close> once the series is exhausted a second time.  There is no bar on
  which they deliver nothing.
\<close>

lemma line_getitem_back:
  assumes "i < length xs"
  shows "line_getitem xs i (- int k) =
     (if k \<le> i then Inr (xs ! (i - k))
      else if k \<le> length xs + i then Inr (xs ! (length xs + i - k))
      else Inl IndexError)"
proof -
  have a: "k \<le> i \<Longrightarrow> nat (int i - int k) = i - k" by simp
  have b: "\<not> k \<le> i \<Longrightarrow> k \<le> length xs + i \<Longrightarrow>
             nat (int (length xs) + (int i - int k)) = length xs + i - k" by simp
  show ?thesis using assms a b by (auto simp: line_getitem_def py_getitem_def)
qed

lemma lookback_wraps:
  assumes "i < length xs" and "L \<le> length xs + i + 1"
  shows "lookback xs i L =
     Inr (map (\<lambda>k. if k \<le> i then xs ! (i - k) else xs ! (length xs + i - k)) [0..<L])"
proof -
  have "map (\<lambda>k. line_getitem xs i (- int k)) [0..<L]
        = map (\<lambda>k. Inr (if k \<le> i then xs ! (i - k) else xs ! (length xs + i - k))) [0..<L]"
    using assms by (intro map_cong [OF refl]) (auto simp: line_getitem_back)
  then show ?thesis unfolding lookback_def by (simp only: collect_Inr)
qed

lemma collect_append_Inl:
  "collect (map Inr vs @ Inl e # rs) = Inl e"
  by (induction vs) simp_all

lemma lookback_raises:
  assumes "i < length xs" and "length xs + i + 1 < L"
  shows "lookback xs i L = Inl IndexError"
proof -
  let ?m = "length xs + i + 1"
  have "[0..<?m + (L - ?m)] = [0..<?m] @ [?m..<?m + (L - ?m)]"
    by (rule upt_add_eq_append) simp
  moreover have "[?m..<L] = ?m # [Suc ?m..<L]"
    using assms(2) by (rule upt_conv_Cons)
  ultimately have split: "[0..<L] = [0..<?m] @ ?m # [Suc ?m..<L]"
    using assms(2) by simp
  have pre: "map (\<lambda>k. line_getitem xs i (- int k)) [0..<?m]
        = map Inr (map (\<lambda>k. if k \<le> i then xs ! (i - k) else xs ! (length xs + i - k)) [0..<?m])"
    using assms(1) by (auto simp: line_getitem_back)
  have at: "line_getitem xs i (- int ?m) = Inl IndexError"
    using line_getitem_back [OF assms(1), of ?m] by (simp del: of_nat_add of_nat_Suc)
  show ?thesis
    unfolding lookback_def split map_append list.map pre at by (rule collect_append_Inl)
qed

lemma upt_10: "[0..<10] = [0, 1, 2, 3, 4, 5, 6, 7, 8, 9]"
  by (simp add: upt_rec)

lemma rising_eq: "rising = [flat_bar 1 1, flat_bar 2 2, flat_bar 3 3, flat_bar 4 4, flat_bar 5 5,
    flat_bar 6 6, flat_bar 7 7, flat_bar 8 8, flat_bar 9 9, flat_bar 10 10]"
  by (simp add: rising_def upt_rec)

lemma rising_opens:
  "lookback (map open rising) 0 10 = Inr [1, 10, 9, 8, 7, 6, 5, 4, 3, 2]"
  by (simp add: rising_eq lookback_def line_getitem_def py_getitem_def flat_bar_def upt_10)

lemma rising_volumes:
  "lookback (map volume rising) 0 10 = Inr [1, 10, 9, 8, 7, 6, 5, 4, 3, 2]"
  by (simp add: rising_eq lookback_def line_getitem_def py_getitem_def flat_bar_def upt_10)

lemma rounded_corr_rising: "rounded_corr (165 / 2) (165 / 2) (165 / 2) 10 = 9007199254740991 / 2 ^ 53"
proof -
  have r: "fl (1 / (10 - 1)) = 8006399337547548 / 2 ^ 56"
    using fl_eqI [of "1 / (10 - 1)" 56 "8006399337547548"] by simp
  have cxy: "fl (165 / 2 * (8006399337547548 / 2 ^ 56)) = 5160374573028693 / 2 ^ 49"
    using fl_eqI [of "165 / 2 * (8006399337547548 / 2 ^ 56)" 49 "5160374573028693"] by simp
  have cxx: "fl (165 / 2 * (8006399337547548 / 2 ^ 56)) = 5160374573028693 / 2 ^ 49"
    using fl_eqI [of "165 / 2 * (8006399337547548 / 2 ^ 56)" 49 "5160374573028693"] by simp
  have sx: "fl (sqrt (5160374573028693 / 2 ^ 49)) = 6817662503260807 / 2 ^ 51"
    using fl_sqrt_eqI [of 6817662503260807 51 "5160374573028693 / 2 ^ 49"] by (simp add: power2_eq_square)
  have t: "fl (5160374573028693 / 2 ^ 49 / (6817662503260807 / 2 ^ 51)) = 6817662503260806 / 2 ^ 51"
    using fl_eqI [of "5160374573028693 / 2 ^ 49 / (6817662503260807 / 2 ^ 51)" 51 "6817662503260806"] by simp
  have q: "fl (6817662503260806 / 2 ^ 51 / (6817662503260807 / 2 ^ 51)) = 9007199254740991 / 2 ^ 53"
    using fl_eqI [of "6817662503260806 / 2 ^ 51 / (6817662503260807 / 2 ^ 51)" 53 "9007199254740991"] by simp
  show ?thesis unfolding rounded_corr_def r cxy cxx sx t q by (rule refl)
qed


lemma rising_center: "center (rank [1, 10, 9, 8, 7, 6, 5, 4, 3, 2])
   = [- (9/2), 9/2, 7/2, 5/2, 3/2, 1/2, - (1/2), - (3/2), - (5/2), - (7/2)]"
  by (simp add: rank_def center_def mean_def)

text \<open>
  Claim C4 fails on the code.  \<^verbatim>\<open>next\<close> has no guard for a bar with fewer than \<open>L\<close>
  bars of history: the reads \<^verbatim>\<open>line[-i]\<close> beyond the first bar reach negative
  positions of the preloaded array, which Python counts from the end of the series.  On
  the first of ten rising bars, with the lookback period of 10 that the notebook runs
  with, the signal is computed from that bar and the nine last bars of the series: it is
  \<open>-1 + 2\<^sup>-\<^sup>5\<^sup>3\<close>, the rounded value of \<open>-1\<close>, and a BUY is emitted; on a series of a
  single bar the same reads raise \<^verbatim>\<open>IndexError\<close>.
\<close>

theorem early_bar_trades:
  "strategy_next 10 \<lparr>bars = rising, idx = 0\<rparr> 0
     = Inr (Fin (- (9007199254740991 / 2 ^ 53)), [Buy])
   \<and> strategy_next 10 \<lparr>bars = [flat_bar 1 1], idx = 0\<rparr> 0 = Inl IndexError"
proof
  have "strategy_next 10 \<lparr>bars = rising, idx = 0\<rparr> 0
      = Inr (Fin (- max (- 1) (min 1 (rounded_corr (165/2) (165/2) (165/2) (real 10)))),
          signal_orders (Fin (- max (- 1) (min 1 (rounded_corr (165/2) (165/2) (165/2) (real 10))))) 0)"
    by (rule strategy_next_steps [where os = "[1, 10, 9, 8, 7, 6, 5, 4, 3, 2]"
          and vs = "[1, 10, 9, 8, 7, 6, 5, 4, 3, 2]"])
       (simp_all add: rising_opens rising_volumes rising_center)
  then show "strategy_next 10 \<lparr>bars = rising, idx = 0\<rparr> 0
     = Inr (Fin (- (9007199254740991 / 2 ^ 53)), [Buy])"
    by (simp add: rounded_corr_rising signal_orders_def)
next
  have "lookback (map open [flat_bar 1 1]) 0 10 = Inl IndexError"
    by (simp add: lookback_def line_getitem_def py_getitem_def flat_bar_def upt_10)
  then show "strategy_next 10 \<lparr>bars = [flat_bar 1 1], idx = 0\<rparr> 0 = Inl IndexError"
    by (simp add: strategy_next_def alpha_signal_def)
qed

section \<open>The position over a run\<close>

lemma simulate_invariant:
  "simulate L bs is p = Inr tr \<Longrightarrow> p = 0 \<or> p = 1 \<Longrightarrow>
     (\<forall>(os, q)\<in>set tr. q = 0 \<or> q = 1) \<and> alternating (p \<noteq> 0) (concat (map fst tr))"
proof (induction "is" arbitrary: p tr)
  case Nil
  then show ?case by simp
next
  case (Cons i "is")
  from Cons.prems(1) obtain a os tr' where
      nx: "strategy_next L \<lparr>bars = bs, idx = i\<rparr> p = Inr (a, os)"
    and rest: "simulate L bs is (fold fill os p) = Inr tr'"
    and tr: "tr = (os, fold fill os p) # tr'"
    by (auto split: sum.splits prod.splits)
  have os: "os = signal_orders a p"
    using nx by (auto simp: strategy_next_def split: sum.splits)
  have p': "fold fill os p = 0 \<or> fold fill os p = 1"
    using Cons.prems(2) by (auto simp: os signal_orders_cases)
  from Cons.IH [OF rest p']
  have ih: "(\<forall>(os, q)\<in>set tr'. q = 0 \<or> q = 1)"
       "alternating (fold fill os p \<noteq> 0) (concat (map fst tr'))"
    by simp_all
  have "alternating (p \<noteq> 0) (os @ concat (map fst tr'))"
    using ih(2) Cons.prems(2) by (auto simp: os signal_orders_cases)
  then show ?case using ih(1) p' by (simp add: tr)
qed

text \<open>
  Claim C6.  Over a whole run from the flat position, with every emitted order filled
  before the next bar: the position after every bar is 0 (FLAT) or 1 (LONG), so never
  short and never more than one unit; and in the sequence of all orders emitted every BUY
  comes while nothing is held and every SELL while the unit is held, so no two BUYs
  follow each other without a SELL between them and nothing is sold when flat.
\<close>

theorem one_position_at_a_time:
  assumes "run_strategy L bs = Inr tr"
  shows "(\<forall>(os, q)\<in>set tr. q = 0 \<or> q = 1) \<and> alternating False (concat (map fst tr))"
  using simulate_invariant [of L bs "[0..<length bs]" 0 tr] assms
  by (simp add: run_strategy_def)

lemma buy_when_flat:
  assumes "\<bar>s - (- 1)\<bar> \<le> \<bar>- 1\<bar> / 2 ^ 50"
  shows "signal_orders (Fin s) 0 = [Buy]" and "signal_orders (Fin s) 1 = []"
proof -
  have "\<bar>s + 1\<bar> \<le> 1 / 1125899906842624" using assms by simp
  then have "s < - (1/2)" using abs_ge_self [of "s + 1"] by linarith
  then show "signal_orders (Fin s) 0 = [Buy]" and "signal_orders (Fin s) 1 = []"
    by (simp_all add: signal_orders_def)
qed

lemma sell_when_long:
  assumes "\<bar>s - 1\<bar> \<le> \<bar>1\<bar> / 2 ^ 50"
  shows "signal_orders (Fin s) 1 = [Sell]"
proof -
  have "\<bar>1 - s\<bar> \<le> 1 / 1125899906842624" using assms by (simp add: abs_minus_commute)
  then have "1/2 < s" using abs_ge_self [of "1 - s"] by linarith
  then show ?thesis by (simp add: signal_orders_def)
qed

theorem one_position_at_a_time_witness:
  "run_strategy 2 [flat_bar 1 1, flat_bar 2 2, flat_bar 3 1, flat_bar 4 4]
     = Inr [([Buy], 1), ([], 1), ([Sell], 0), ([Buy], 1)]
   \<and> alternating False [Buy, Sell, Buy]"
proof -
  let ?bs = "[flat_bar 1 1, flat_bar 2 2, flat_bar 3 1, flat_bar 4 4]"
  have up: "spec_signal [1, 4] [1, 4] = Fin (- 1)" "spec_signal [2, 1] [2, 1] = Fin (- 1)"
      "spec_signal [4, 3] [4, 1] = Fin (- 1)"
    and down: "spec_signal [3, 2] [1, 2] = Fin 1"
    by (simp_all add: spec_signal_def rank_def center_def mean_def pearson_def)
  obtain s0 where n0: "strategy_next 2 \<lparr>bars = ?bs, idx = 0\<rparr> 0 = Inr (Fin s0, [Buy])"
    using strategy_next_close [where d = "\<lparr>bars = ?bs, idx = 0\<rparr>" and L = 2
        and os = "[1, 4]" and vs = "[1, 4]" and p = "- 1" and pos = 0] up(1) buy_when_flat(1)
    by (auto simp add: lookback_def line_getitem_def py_getitem_def flat_bar_def upt_2)
  obtain s1 where n1: "strategy_next 2 \<lparr>bars = ?bs, idx = Suc 0\<rparr> 1 = Inr (Fin s1, [])"
    using strategy_next_close [where d = "\<lparr>bars = ?bs, idx = Suc 0\<rparr>" and L = 2
        and os = "[2, 1]" and vs = "[2, 1]" and p = "- 1" and pos = 1] up(2) buy_when_flat(2)
    by (auto simp add: lookback_def line_getitem_def py_getitem_def flat_bar_def upt_2)
  obtain s2 where n2: "strategy_next 2 \<lparr>bars = ?bs, idx = Suc (Suc 0)\<rparr> 1 = Inr (Fin s2, [Sell])"
    using strategy_next_close [where d = "\<lparr>bars = ?bs, idx = Suc (Suc 0)\<rparr>" and L = 2
        and os = "[3, 2]" and vs = "[1, 2]" and p = 1 and pos = 1] down sell_when_long
    by (auto simp add: lookback_def line_getitem_def py_getitem_def flat_bar_def upt_2)
  obtain s3 where n3: "strategy_next 2 \<lparr>bars = ?bs, idx = Suc (Suc (Suc 0))\<rparr> 0 = Inr (Fin s3, [Buy])"
    using strategy_next_close [where d = "\<lparr>bars = ?bs, idx = Suc (Suc (Suc 0))\<rparr>" and L = 2
        and os = "[4, 3]" and vs = "[4, 1]" and p = "- 1" and pos = 0] up(3) buy_when_flat(1)
    by (auto simp add: lookback_def line_getitem_def py_getitem_def flat_bar_def upt_2)
  have run: "run_strategy 2 ?bs = Inr [([Buy], 1), ([], 1), ([Sell], 0), ([Buy], 1)]"
    by (simp add: run_strategy_def upt_rec n0 n1 n2 n3)
  show ?thesis
    using one_position_at_a_time [OF run] run by simp
qed

section \<open>Properties of the loader\<close>

lemma required_after_index:
  "filter (\<lambda>col. col \<notin> set (filter (\<lambda>c. c \<noteq> ''timestamp'') cs)) required_columns = []
     \<longleftrightarrow> (\<forall>col\<in>set required_columns. col \<in> set cs)"
  by (auto simp: required_columns_def)

lemma index_and_check_fails_iff:
  "(\<exists>e. index_and_check p df = Inl e) \<longleftrightarrow> \<not> has_required_columns df"
  using required_after_index [of "columns df"]
  by (simp add: index_and_check_def has_required_columns_def Let_def)

lemma index_and_check_key_error:
  "index_and_check p df = Inl e \<Longrightarrow> \<exists>k. e = KeyError k"
  by (auto simp: index_and_check_def Let_def split: if_splits)

lemma has_required_columns_append:
  "has_required_columns (df\<lparr>columns := columns df @ [''timestamp'']\<rparr>) = has_required_columns df"
  by (auto simp: has_required_columns_def required_columns_def)

lemma load_fails_iff:
  assumes "time_parses df"
  shows "(\<exists>e. load_stock_data p df = Inl e)
           \<longleftrightarrow> \<not> has_required_columns df \<or> \<not> has_time_column df"
  using assms index_and_check_fails_iff [of p df]
    index_and_check_fails_iff [of p "df\<lparr>columns := columns df @ [''timestamp'']\<rparr>"]
  by (auto simp: load_stock_data_def has_time_column_def has_required_columns_append)

lemma load_key_error:
  assumes "time_parses df" and "load_stock_data p df = Inl e"
  shows "\<exists>k. e = KeyError k"
  using assms by (auto simp: load_stock_data_def split: if_splits dest: index_and_check_key_error)

lemma load_feeds_skips:
  assumes "\<forall>f\<in>set fs. wanted f \<longrightarrow> time_parses (content f)"
  shows "load_feeds fs = Inr (loaded_of fs, printed_of fs)"
  using assms
proof (induction fs)
  case Nil
  then show ?case by (simp add: loaded_of_def printed_of_def)
next
  case (Cons f fs)
  then have ih: "load_feeds fs = Inr (loaded_of fs, printed_of fs)" by simp
  show ?case
  proof (cases "wanted f")
    case False
    then show ?thesis using ih by (simp add: wanted_def loaded_of_def printed_of_def)
  next
    case True
    then have tp: "time_parses (content f)" using Cons.prems by simp
    show ?thesis
    proof (cases "load_stock_data (path_of f) (content f)")
      case (Inl e)
      then obtain k where "e = KeyError k" using load_key_error [OF tp] by blast
      then show ?thesis using Inl True ih
        by (simp add: loaded_of_def printed_of_def wanted_def)
    next
      case (Inr df)
      then show ?thesis using True ih
        by (simp add: loaded_of_def printed_of_def wanted_def)
    qed
  qed
qed

lemma load_no_time_column:
  "\<not> has_time_column df \<Longrightarrow> load_stock_data p df = Inl (KeyError (NoTimeColumn p))"
  by (simp add: load_stock_data_def has_time_column_def)


text \<open>
  Claim C9 fails as stated: a source with every required column and a time column whose
  values \<^verbatim>\<open>pd.to_datetime\<close> cannot parse fails to load with a \<^verbatim>\<open>ValueError\<close>,
  which the run does not catch; the run stops instead of going on to the next source.
\<close>

theorem unparsable_time_aborts:
  "load_stock_data ''data/A_1h.csv''
      \<lparr>columns = [''timestamp'', ''open'', ''high'', ''low'', ''close'', ''volume''],
        index_name = None, time_parses = False\<rparr> = Inl ValueError
   \<and> has_required_columns
       \<lparr>columns = [''timestamp'', ''open'', ''high'', ''low'', ''close'', ''volume''],
        index_name = None, time_parses = False\<rparr>
   \<and> has_time_column
       \<lparr>columns = [''timestamp'', ''open'', ''high'', ''low'', ''close'', ''volume''],
        index_name = None, time_parses = False\<rparr>
   \<and> load_feeds
       [\<lparr>subdir = ''data'', file_name = ''A_1h.csv'', content =
           \<lparr>columns = [''timestamp'', ''open'', ''high'', ''low'', ''close'', ''volume''],
             index_name = None, time_parses = False\<rparr>\<rparr>,
        \<lparr>subdir = ''data'', file_name = ''B_1h.csv'', content =
           \<lparr>columns = [''timestamp'', ''open'', ''high'', ''low'', ''close'', ''volume''],
             index_name = None, time_parses = True\<rparr>\<rparr>] = Inl ValueError"
  by (simp add: load_stock_data_def has_required_columns_def required_columns_def
        has_time_column_def path_of_def suffix_to_prefix)


text \<open>
  Claim C9, amended.  For a source whose time values can be parsed, loading fails exactly
  when a required column is absent or neither a \<^verbatim>\<open>timestamp\<close> nor a \<^verbatim>\<open>date\<close>
  column exists, and the failure is a \<^verbatim>\<open>KeyError\<close>.  When this holds of every file
  the run tries, the run does not stop: it adds the frames of the files that load, in
  walking order, and prints for every failing file that it is skipped and why.
\<close>

theorem key_errors_are_skipped:
  "(time_parses df \<longrightarrow>
      ((\<exists>e. load_stock_data p df = Inl e)
          \<longleftrightarrow> \<not> has_required_columns df \<or> \<not> has_time_column df)
      \<and> (\<forall>e. load_stock_data p df = Inl e \<longrightarrow> (\<exists>k. e = KeyError k)))
   \<and> ((\<forall>f\<in>set fs. wanted f \<longrightarrow> time_parses (content f)) \<longrightarrow>
        load_feeds fs = Inr (loaded_of fs, printed_of fs))"
  using load_fails_iff [of df p] load_key_error [of df p] load_feeds_skips [of fs]
  by blast


theorem key_errors_are_skipped_witness:
  "load_feeds
     [\<lparr>subdir = ''d'', file_name = ''A_1h.csv'', content =
         \<lparr>columns = [''timestamp'', ''open'', ''high'', ''low'', ''close''],
           index_name = None, time_parses = True\<rparr>\<rparr>,
      \<lparr>subdir = ''d'', file_name = ''B_1h.csv'', content =
         \<lparr>columns = [''time'', ''open'', ''high'', ''low'', ''close'', ''volume''],
           index_name = None, time_parses = True\<rparr>\<rparr>,
      \<lparr>subdir = ''d'', file_name = ''C_1d.csv'', content =
         \<lparr>columns = [''open''], index_name = None, time_parses = False\<rparr>\<rparr>,
      \<lparr>subdir = ''d'', file_name = ''D_1h.csv'', content =
         \<lparr>columns = [''date'', ''open'', ''high'', ''low'', ''close'', ''volume''],
           index_name = None, time_parses = True\<rparr>\<rparr>]
   = Inr ([\<lparr>columns = [''date'', ''open'', ''high'', ''low'', ''close'', ''volume''],
            index_name = Some ''timestamp'', time_parses = True\<rparr>],
          [Loading ''d/A_1h.csv'', Skipping ''d/A_1h.csv'' (MissingColumns [''volume''] ''d/A_1h.csv''),
           Loading ''d/B_1h.csv'', Skipping ''d/B_1h.csv'' (NoTimeColumn ''d/B_1h.csv''),
           Loading ''d/D_1h.csv''])
   \<and> (\<exists>e. load_stock_data ''d/A_1h.csv''
              \<lparr>columns = [''timestamp'', ''open'', ''high'', ''low'', ''close''],
                index_name = None, time_parses = True\<rparr> = Inl e)"
  using key_errors_are_skipped
    [of "\<lparr>columns = [''timestamp'', ''open'', ''high'', ''low'', ''close''],
           index_name = None, time_parses = True\<rparr>" "''d/A_1h.csv''"
      "[\<lparr>subdir = ''d'', file_name = ''A_1h.csv'', content =
         \<lparr>columns = [''timestamp'', ''open'', ''high'', ''low'', ''close''],
           index_name = None, time_parses = True\<rparr>\<rparr>,
      \<lparr>subdir = ''d'', file_name = ''B_1h.csv'', content =
         \<lparr>columns = [''time'', ''open'', ''high'', ''low'', ''close'', ''volume''],
           index_name = None, time_parses = True\<rparr>\<rparr>,
      \<lparr>subdir = ''d'', file_name = ''C_1d.csv'', content =
         \<lparr>columns = [''open''], index_name = None, time_parses = False\<rparr>\<rparr>,
      \<lparr>subdir = ''d'', file_name = ''D_1h.csv'', content =
         \<lparr>columns = [''date'', ''open'', ''high'', ''low'', ''close'', ''volume''],
           index_name = None, time_parses = True\<rparr>\<rparr>]"]
  by (simp add: loaded_of_def printed_of_def wanted_def suffix_to_prefix path_of_def
        load_stock_data_def index_and_check_def required_columns_def
        has_required_columns_def has_time_column_def)

end
